theory Spec2Isabelle
  imports Complex_Main "HOL-Library.Log_Nat" "HOL-Library.Multiset"
begin

section \<open>JavaScript numbers\<close>

text \<open>
  The script of \<^verbatim>\<open>src/app/src/routes/+page.svelte\<close> computes with JavaScript numbers,
  which are IEEE 754 binary64 values. Counters, operands and scores are integers far below
  \<open>2^53\<close>, where \<^verbatim>\<open>+\<close>, \<^verbatim>\<open>-\<close> and \<^verbatim>\<open>*\<close> are exact; they are modelled as \<open>int\<close>.
  Where the script divides (\<^verbatim>\<open>num1 / num2\<close> and
  \<^verbatim>\<open>correctCount / sessionHistory.length\<close>) or multiplies a number that need not be an
  integer (\<^verbatim>\<open>Math.random() * n\<close> and the quotient times 100), the value is modelled as
  the rational number it denotes, and the operation rounds its exact result to the
  nearest binary64 value, ties to the even significand (\<open>fl\<close>). The precision of 53
  bits is modelled; the exponent range is not (no overflow, no subnormals), which the
  quotients and products of this script, at most \<open>2^14\<close> in magnitude, do not leave
  unless \<^verbatim>\<open>Math.random()\<close> is below \<open>2^-1022\<close>, where \<^verbatim>\<open>Math.floor\<close> of the product is
  0 in the script and in the model.
\<close>

type_synonym number = rat

definition pow2 :: "int \<Rightarrow> rat" where
  "pow2 e = (if 0 \<le> e then 2 ^ nat e else 1 / 2 ^ nat (- e))"

text \<open>The binary exponent of a positive rational: \<open>pow2 (expo x) \<le> x < pow2 (expo x + 1)\<close>.\<close>

definition expo :: "rat \<Rightarrow> int" where
  "expo x = (if 1 \<le> x then bitlen \<lfloor>x\<rfloor> - 1 else - bitlen (\<lceil>1 / x\<rceil> - 1))"

text \<open>Rounding to the nearest integer, a tie going to the even one.\<close>

definition rne :: "rat \<Rightarrow> int" where
  "rne x = (let f = \<lfloor>x\<rfloor>; d = x - of_int f
            in if d < 1 / 2 then f else if 1 / 2 < d then f + 1
               else if even f then f else f + 1)"

text \<open>Rounding to binary64: a significand of 53 bits.\<close>

definition fl :: "rat \<Rightarrow> number" where
  "fl x = (if x = 0 then 0
           else let e = expo \<bar>x\<bar> - 52 in of_int (rne (x / pow2 e)) * pow2 e)"

text \<open>The rationals that are binary64 values: rounding leaves them as they are.\<close>

definition binary64 :: "rat \<Rightarrow> bool" where
  "binary64 x \<longleftrightarrow> fl x = x"

text \<open>
  \<^verbatim>\<open>x / y\<close> and \<^verbatim>\<open>x * y\<close> on numbers. The script never divides by zero (lemma
  \<open>genProblem_operands\<close> below, and the guard \<^verbatim>\<open>sessionHistory.length > 0\<close>), so the
  non-finite results of JavaScript's division do not arise.
\<close>

definition fdiv :: "number \<Rightarrow> number \<Rightarrow> number" where
  "fdiv x y = fl (x / y)"

definition fmul :: "number \<Rightarrow> number \<Rightarrow> number" where
  "fmul x y = fl (x * y)"

text \<open>
  \<^verbatim>\<open>Math.round\<close>: the nearest integer, a tie going towards \<open>+\<infinity>\<close>. \<^verbatim>\<open>Math.floor\<close>
  is \<open>\<lfloor>_\<rfloor>\<close>.
\<close>

definition Math_round :: "number \<Rightarrow> int" where
  "Math_round x = \<lfloor>x + 1 / 2\<rfloor>"

section \<open>JavaScript strings\<close>

text \<open>
  Strings are modelled as the byte sequences of their UTF-8 encoding, which is how the
  source file stores its literals. The two literals of \<^verbatim>\<open>generateProblem\<close> and
  \<^verbatim>\<open>configKey\<close> that are not ASCII are transcribed byte by byte from the file:
  the one chosen for \<^verbatim>\<open>'/'\<close> is \<^verbatim>\<open>C3 83 C2 B7\<close> and the one chosen for \<^verbatim>\<open>'*'\<close> is
  \<^verbatim>\<open>C3 83 E2 80 94\<close>.
\<close>

definition lit_div :: string where
  "lit_div = [CHR 0xC3, CHR 0x83, CHR 0xC2, CHR 0xB7]"

definition lit_mul :: string where
  "lit_mul = [CHR 0xC3, CHR 0x83, CHR 0xE2, CHR 0x80, CHR 0x94]"

text \<open>
  The division sign U+00F7, the multiplication sign U+00D7 and the minus sign U+2212 in
  UTF-8, for comparison.
\<close>

definition division_sign :: string where
  "division_sign = [CHR 0xC3, CHR 0xB7]"

definition multiplication_sign :: string where
  "multiplication_sign = [CHR 0xC3, CHR 0x97]"

definition minus_sign :: string where
  "minus_sign = [CHR 0xE2, CHR 0x88, CHR 0x92]"

text \<open>
  The template literal \<^verbatim>\<open>`${n}`\<close> of an integral number below \<open>10^21\<close> in magnitude:
  its decimal digits, after a \<^verbatim>\<open>-\<close> when it is negative.
\<close>

definition digit_char :: "nat \<Rightarrow> char" where
  "digit_char d = ''0123456789'' ! d"

fun dec :: "nat \<Rightarrow> string" where
  "dec n = (if n < 10 then [digit_char n] else dec (n div 10) @ [digit_char (n mod 10)])"

declare dec.simps [simp del]

definition Number_toString :: "int \<Rightarrow> string" where
  "Number_toString n = (if n < 0 then ''-'' @ dec (nat (- n)) else dec (nat n))"

subsection \<open>parseInt\<close>

text \<open>
  \<^verbatim>\<open>parseInt(string)\<close> with no radix, as ECMAScript defines it: leading white space
  and line terminators are skipped, one sign is read, a prefix \<^verbatim>\<open>0x\<close> or \<^verbatim>\<open>0X\<close>
  selects radix 16, and the longest prefix of digits of the radix is the value; without
  such a digit the result is \<^verbatim>\<open>NaN\<close>, modelled as \<open>None\<close>. (Beyond \<open>2^53\<close> JavaScript
  rounds the value to binary64; the model keeps the exact integer.)
\<close>

definition whiteSpace :: "string list" where
  "whiteSpace =
     [[CHR 0x09], [CHR 0x0A], [CHR 0x0B], [CHR 0x0C], [CHR 0x0D], [CHR 0x20],
      [CHR 0xC2, CHR 0xA0], [CHR 0xE1, CHR 0x9A, CHR 0x80],
      [CHR 0xE2, CHR 0x80, CHR 0x80], [CHR 0xE2, CHR 0x80, CHR 0x81],
      [CHR 0xE2, CHR 0x80, CHR 0x82], [CHR 0xE2, CHR 0x80, CHR 0x83],
      [CHR 0xE2, CHR 0x80, CHR 0x84], [CHR 0xE2, CHR 0x80, CHR 0x85],
      [CHR 0xE2, CHR 0x80, CHR 0x86], [CHR 0xE2, CHR 0x80, CHR 0x87],
      [CHR 0xE2, CHR 0x80, CHR 0x88], [CHR 0xE2, CHR 0x80, CHR 0x89],
      [CHR 0xE2, CHR 0x80, CHR 0x8A], [CHR 0xE2, CHR 0x80, CHR 0xA8],
      [CHR 0xE2, CHR 0x80, CHR 0xA9], [CHR 0xE2, CHR 0x80, CHR 0xAF],
      [CHR 0xE2, CHR 0x81, CHR 0x9F], [CHR 0xE3, CHR 0x80, CHR 0x80],
      [CHR 0xEF, CHR 0xBB, CHR 0xBF]]"

definition startsWith :: "string \<Rightarrow> string \<Rightarrow> bool" where
  "startsWith s w \<longleftrightarrow> take (length w) s = w"

function trimStart :: "string \<Rightarrow> string" where
  "trimStart s =
     (case find (\<lambda>w. w \<noteq> [] \<and> startsWith s w) whiteSpace of
        None \<Rightarrow> s
      | Some w \<Rightarrow> trimStart (drop (length w) s))"
  by pat_completeness auto
termination
proof (relation "measure length")
  show "wf (measure length)" by simp
next
  fix s :: string and w
  assume "find (\<lambda>w. w \<noteq> [] \<and> startsWith s w) whiteSpace = Some w"
  then have "w \<noteq> []" and "take (length w) s = w"
    by (auto simp: find_Some_iff startsWith_def)
  then have "s \<noteq> []" by auto
  with \<open>w \<noteq> []\<close> show "(drop (length w) s, s) \<in> measure length" by simp
qed

declare trimStart.simps [simp del]

definition digit_val :: "char \<Rightarrow> nat option" where
  "digit_val =
     map_of
       [(CHR ''0'', 0), (CHR ''1'', 1), (CHR ''2'', 2), (CHR ''3'', 3), (CHR ''4'', 4),
        (CHR ''5'', 5), (CHR ''6'', 6), (CHR ''7'', 7), (CHR ''8'', 8), (CHR ''9'', 9),
        (CHR ''a'', 10), (CHR ''b'', 11), (CHR ''c'', 12), (CHR ''d'', 13),
        (CHR ''e'', 14), (CHR ''f'', 15),
        (CHR ''A'', 10), (CHR ''B'', 11), (CHR ''C'', 12), (CHR ''D'', 13),
        (CHR ''E'', 14), (CHR ''F'', 15)]"

definition isDigit :: "nat \<Rightarrow> char \<Rightarrow> bool" where
  "isDigit radix c = (case digit_val c of None \<Rightarrow> False | Some d \<Rightarrow> d < radix)"

definition digitsValue :: "nat \<Rightarrow> string \<Rightarrow> nat" where
  "digitsValue radix z =
     foldl (\<lambda>a c. a * radix + (case digit_val c of None \<Rightarrow> 0 | Some d \<Rightarrow> d)) 0 z"

definition parseInt :: "string \<Rightarrow> int option" where
  "parseInt string =
     (let s1 = trimStart string;
          sign = (if startsWith s1 ''-'' then - 1 else 1);
          s2 = (if startsWith s1 ''-'' \<or> startsWith s1 ''+'' then drop 1 s1 else s1);
          hex = (startsWith s2 ''0x'' \<or> startsWith s2 ''0X'');
          radix = (if hex then 16 else 10);
          s3 = (if hex then drop 2 s2 else s2);
          z = takeWhile (isDigit radix) s3
      in if z = [] then None else Some (sign * int (digitsValue radix z)))"

section \<open>Data model of the page script\<close>

text \<open>
  The script declares its data as TypeScript object types; each becomes a record. The
  fields of \<^verbatim>\<open>GameRecord\<close> carry the prefix \<open>g_\<close> (its \<^verbatim>\<open>score\<close>, \<^verbatim>\<open>accuracy\<close> and
  \<^verbatim>\<open>config\<close> share their names with variables of the script, and \<^verbatim>\<open>id\<close> with a
  constant of HOL), and the field \<^verbatim>\<open>div\<close> of \<^verbatim>\<open>Config\<close> is written \<open>div'\<close>.

  \<^verbatim>\<open>GameRecord.date\<close> is the ISO string of an instant; the script only ever builds it
  with \<^verbatim>\<open>new Date().toISOString()\<close> and reads it with \<^verbatim>\<open>new Date(date).getTime()\<close>, so
  \<open>g_date\<close> is that instant in milliseconds.
\<close>

datatype Screen = menu | game | result | history

record Config =
  add :: bool
  sub :: bool
  mul :: bool
  div' :: bool
  negatives :: bool
  doubleDigits :: bool

record Problem =
  question :: string
  answer :: number

record HistoryItem =
  q :: string
  correct :: number
  user :: int
  isCorrect :: bool

record GameRecord =
  g_id :: int
  g_date :: int
  g_score :: int
  g_accuracy :: int
  g_config :: Config

text \<open>\<^verbatim>\<open>keyof Config\<close>: the six field names.\<close>

datatype ConfigKey = Kadd | Ksub | Kmul | Kdiv | Knegatives | KdoubleDigits

section \<open>toggleConfig\<close>

text \<open>\<^verbatim>\<open>config[key]\<close> and \<^verbatim>\<open>config[key] = v\<close>.\<close>

fun getFlag :: "Config \<Rightarrow> ConfigKey \<Rightarrow> bool" where
  "getFlag c Kadd = add c"
| "getFlag c Ksub = sub c"
| "getFlag c Kmul = mul c"
| "getFlag c Kdiv = div' c"
| "getFlag c Knegatives = negatives c"
| "getFlag c KdoubleDigits = doubleDigits c"

fun setFlag :: "Config \<Rightarrow> ConfigKey \<Rightarrow> bool \<Rightarrow> Config" where
  "setFlag c Kadd v = c\<lparr>add := v\<rparr>"
| "setFlag c Ksub v = c\<lparr>sub := v\<rparr>"
| "setFlag c Kmul v = c\<lparr>mul := v\<rparr>"
| "setFlag c Kdiv v = c\<lparr>div' := v\<rparr>"
| "setFlag c Knegatives v = c\<lparr>negatives := v\<rparr>"
| "setFlag c KdoubleDigits v = c\<lparr>doubleDigits := v\<rparr>"

text \<open>
  \<^verbatim>\<open>(['add', 'sub', 'mul', 'div'] as const).filter(k => config[k]).length\<close>
\<close>

definition activeOps :: "Config \<Rightarrow> nat" where
  "activeOps c = length (filter (getFlag c) [Kadd, Ksub, Kmul, Kdiv])"

text \<open>
  \<^verbatim>\<open>
  function toggleConfig(key: keyof Config) {
    if (key !== 'negatives' && key !== 'doubleDigits') {
      const activeOps = ...;
      if (activeOps === 1 && config[key]) return;
    }
    config[key] = !config[key];
  }
  \<close>
  The function mutates the variable \<^verbatim>\<open>config\<close>; the model returns the new value.
\<close>

definition toggleConfig :: "ConfigKey \<Rightarrow> Config \<Rightarrow> Config" where
  "toggleConfig key c =
     (if key \<noteq> Knegatives \<and> key \<noteq> KdoubleDigits \<and> activeOps c = 1 \<and> getFlag c key
      then c
      else setFlag c key (\<not> getFlag c key))"

text \<open>The invariant of the data model: some operator flag is set.\<close>

definition someOperator :: "Config \<Rightarrow> bool" where
  "someOperator c \<longleftrightarrow> add c \<or> sub c \<or> mul c \<or> div' c"

text \<open>The configuration the script starts with, and two with a single operator.\<close>

definition config0 :: Config where
  "config0 = \<lparr>add = True, sub = True, mul = True, div' = False,
              negatives = False, doubleDigits = False\<rparr>"

definition onlySub :: Config where
  "onlySub = \<lparr>add = False, sub = True, mul = False, div' = False,
              negatives = False, doubleDigits = False\<rparr>"

definition onlyDiv :: Config where
  "onlyDiv = \<lparr>add = False, sub = False, mul = False, div' = True,
              negatives = False, doubleDigits = False\<rparr>"

section \<open>generateProblem\<close>

text \<open>
  \<^verbatim>\<open>Math.random()\<close> is the host's. The values it returns to one run of
  \<^verbatim>\<open>generateProblem\<close> are the function's second argument, in the order of the calls:
  for the operator, for \<^verbatim>\<open>num1\<close>, for \<^verbatim>\<open>num2\<close>, and (when \<^verbatim>\<open>config.negatives\<close> is set)
  for the two signs. Each is a binary64 value in \<open>[0, 1)\<close>. The products with
  \<^verbatim>\<open>ops.length\<close> and \<^verbatim>\<open>max - min + 1\<close> are products of numbers, rounded to binary64
  (\<open>fmul\<close>) before \<^verbatim>\<open>Math.floor\<close> is applied.
\<close>

record Draws =
  r_op :: rat
  r_num1 :: rat
  r_num2 :: rat
  r_neg1 :: rat
  r_neg2 :: rat

definition inUnit :: "rat \<Rightarrow> bool" where
  "inUnit r \<longleftrightarrow> 0 \<le> r \<and> r < 1"

definition validDraws :: "Draws \<Rightarrow> bool" where
  "validDraws d \<longleftrightarrow>
     inUnit (r_op d) \<and> inUnit (r_num1 d) \<and> inUnit (r_num2 d) \<and>
     inUnit (r_neg1 d) \<and> inUnit (r_neg2 d) \<and>
     binary64 (r_op d) \<and> binary64 (r_num1 d) \<and> binary64 (r_num2 d) \<and>
     binary64 (r_neg1 d) \<and> binary64 (r_neg2 d)"

text \<open>
  \<^verbatim>\<open>
  const ops: string[] = [];
  if (config.add) ops.push('+');  if (config.sub) ops.push('-');
  if (config.mul) ops.push('*');  if (config.div) ops.push('/');
  const operator = ops[Math.floor(Math.random() * ops.length)];
  \<close>
  Reading an array out of range gives \<^verbatim>\<open>undefined\<close>, here \<open>None\<close>.
\<close>

definition opsOf :: "Config \<Rightarrow> string list" where
  "opsOf c =
     (if add c then [''+''] else []) @ (if sub c then [''-''] else []) @
     (if mul c then [''*''] else []) @ (if div' c then [''/''] else [])"

definition pickOperator :: "Config \<Rightarrow> Draws \<Rightarrow> string option" where
  "pickOperator c d =
     (let ops = opsOf c; i = \<lfloor>fmul (r_op d) (of_nat (length ops))\<rfloor>
      in if 0 \<le> i \<and> nat i < length ops then Some (ops ! nat i) else None)"

text \<open>
  \<^verbatim>\<open>
  const max = config.doubleDigits ? 99 : 12;
  const min = config.doubleDigits ? 10 : 1;
  let num1 = Math.floor(Math.random() * (max - min + 1)) + min;
  let num2 = Math.floor(Math.random() * (max - min + 1)) + min;
  if (config.negatives) {
    if (Math.random() > 0.5) num1 *= -1;
    if (Math.random() > 0.5) num2 *= -1;
  }
  \<close>
\<close>

definition drawOperand :: "Config \<Rightarrow> rat \<Rightarrow> rat \<Rightarrow> int" where
  "drawOperand c r rneg =
     (let max = (if doubleDigits c then 99 else 12);
          min = (if doubleDigits c then 10 else 1);
          num = \<lfloor>fmul r (of_int (max - min + 1))\<rfloor> + min
      in if negatives c \<and> rneg > 1 / 2 then num * (- 1) else num)"

text \<open>
  \<^verbatim>\<open>
  let answer = 0;
  switch (operator) {
    case '+': answer = num1 + num2; break;
    case '-': answer = num1 - num2; break;
    case '*': answer = num1 * num2; break;
    case '/': num1 = num1 * num2; answer = num1 / num2; break;
  }
  \<close>
  The result is the pair of \<^verbatim>\<open>num1\<close> (reassigned in the last case) and \<^verbatim>\<open>answer\<close>.
\<close>

definition compute :: "string option \<Rightarrow> int \<Rightarrow> int \<Rightarrow> int \<times> number" where
  "compute operator num1 num2 =
     (if operator = Some ''+'' then (num1, of_int (num1 + num2))
      else if operator = Some ''-'' then (num1, of_int (num1 - num2))
      else if operator = Some ''*'' then (num1, of_int (num1 * num2))
      else if operator = Some ''/''
        then (num1 * num2, fdiv (of_int (num1 * num2)) (of_int num2))
      else (num1, 0))"

text \<open>
  \<^verbatim>\<open>
  const fmt = (n: number) => n < 0 ? `(${n})` : `${n}`;
  const opSymbol = operator === '/' ? <lit_div> : operator === '*' ? <lit_mul> : operator;
  currentProblem = { question: `${fmt(num1)} ${opSymbol} ${fmt(num2)}`, answer };
  \<close>
\<close>

definition fmt :: "int \<Rightarrow> string" where
  "fmt n = (if n < 0 then ''('' @ Number_toString n @ '')'' else Number_toString n)"

definition opSymbol :: "string option \<Rightarrow> string" where
  "opSymbol operator =
     (if operator = Some ''/'' then lit_div
      else if operator = Some ''*'' then lit_mul
      else (case operator of Some s \<Rightarrow> s | None \<Rightarrow> ''undefined''))"

definition mkQuestion :: "int \<Rightarrow> string option \<Rightarrow> int \<Rightarrow> string" where
  "mkQuestion num1 operator num2 = fmt num1 @ '' '' @ opSymbol operator @ '' '' @ fmt num2"

text \<open>The value assigned to \<^verbatim>\<open>currentProblem\<close>.\<close>

definition genProblem :: "Config \<Rightarrow> Draws \<Rightarrow> Problem" where
  "genProblem c d =
     (let operator = pickOperator c d;
          num1 = drawOperand c (r_num1 d) (r_neg1 d);
          num2 = drawOperand c (r_num2 d) (r_neg2 d);
          (num1', answer) = compute operator num1 num2
      in \<lparr>question = mkQuestion num1' operator num2, answer = answer\<rparr>)"

section \<open>The state of the page and its host\<close>

text \<open>
  The \<^verbatim>\<open>let\<close> variables of the script, under their names, followed by the host's
  resources the script acts on: the armed interval timers (by handle), the pending
  \<^verbatim>\<open>setTimeout\<close> callbacks with their delays, the next timer handle, and the item
  \<^verbatim>\<open>mathSprintHistory\<close> of \<^verbatim>\<open>localStorage\<close>. \<^verbatim>\<open>inputEl\<close> (an element reference) has
  no part in the state.
\<close>

datatype Callback = CbFocus | CbGenerate | CbShakeGenerate

record state =
  screen :: Screen
  config :: Config
  score :: int
  timeLeft :: int
  timerInterval :: "nat option"
  currentProblem :: Problem
  sessionHistory :: "HistoryItem list"
  pastGames :: "GameRecord list"
  userInput :: string
  inputClass :: string
  shaking :: bool
  intervals :: "nat list"
  timeouts :: "(nat \<times> Callback) list"
  nextHandle :: nat
  storage :: "string option"

definition classNeutral :: string where
  "classNeutral = ''border-zinc-700 focus:border-purple-500 text-white''"

definition classCorrect :: string where
  "classCorrect = ''border-emerald-500 text-emerald-500''"

definition classWrong :: string where
  "classWrong = ''border-red-500 text-red-500''"

text \<open>The page as it is loaded: the initialisers of the script, no timer, timer handles from 1.\<close>

definition initial :: "string option \<Rightarrow> state" where
  "initial stored =
     \<lparr>screen = menu, config = config0, score = 0, timeLeft = 60, timerInterval = None,
      currentProblem = \<lparr>question = [], answer = 0\<rparr>, sessionHistory = [],
      pastGames = [], userInput = [], inputClass = classNeutral, shaking = False,
      intervals = [], timeouts = [], nextHandle = 1, storage = stored\<rparr>"

subsection \<open>Host operations\<close>

text \<open>
  \<^verbatim>\<open>JSON.parse\<close> and \<^verbatim>\<open>JSON.stringify\<close> are the host's; they are parameters of the
  model, together with the flag \<^verbatim>\<open>browser\<close>. \<^verbatim>\<open>JSON.parse\<close> throws a
  \<^verbatim>\<open>SyntaxError\<close> on a text that is not JSON.
\<close>

datatype js_error = SyntaxError

record env =
  browser :: bool
  JSON_parse :: "string \<Rightarrow> js_error + GameRecord list"
  JSON_stringify :: "GameRecord list \<Rightarrow> string"

definition clearInterval :: "nat \<Rightarrow> state \<Rightarrow> state" where
  "clearInterval h st = st\<lparr>intervals := removeAll h (intervals st)\<rparr>"

text \<open>\<^verbatim>\<open>if (timerInterval) clearInterval(timerInterval);\<close> A handle is truthy unless it is 0.\<close>

definition clearTimer :: "state \<Rightarrow> state" where
  "clearTimer st =
     (case timerInterval st of
        None \<Rightarrow> st
      | Some h \<Rightarrow> if h \<noteq> 0 then clearInterval h st else st)"

definition setTimeout :: "Callback \<Rightarrow> nat \<Rightarrow> state \<Rightarrow> state" where
  "setTimeout cb delay st = st\<lparr>timeouts := timeouts st @ [(delay, cb)]\<rparr>"

subsection \<open>onMount\<close>

text \<open>
  \<^verbatim>\<open>
  onMount(() => {
    if (browser) {
      const saved = localStorage.getItem('mathSprintHistory');
      if (saved) pastGames = JSON.parse(saved);
    }
  });
  \<close>
  \<^verbatim>\<open>getItem\<close> returns \<^verbatim>\<open>null\<close> for an absent item; \<^verbatim>\<open>null\<close> and the empty string are
  falsy. Nothing catches what \<^verbatim>\<open>JSON.parse\<close> throws: the callback ends with the error.
\<close>

definition onMount :: "env \<Rightarrow> state \<Rightarrow> js_error + state" where
  "onMount e st =
     (if browser e then
        (case storage st of
           None \<Rightarrow> Inr st
         | Some saved \<Rightarrow>
             if saved \<noteq> [] then
               (case JSON_parse e saved of
                  Inl err \<Rightarrow> Inl err
                | Inr games \<Rightarrow> Inr (st\<lparr>pastGames := games\<rparr>))
             else Inr st)
      else Inr st)"

subsection \<open>generateProblem, on the state\<close>

text \<open>
  \<^verbatim>\<open>
  currentProblem = { question: ..., answer };
  userInput = '';
  inputClass = 'border-zinc-700 focus:border-purple-500 text-white';
  \<close>
\<close>

definition generateProblem :: "Draws \<Rightarrow> state \<Rightarrow> state" where
  "generateProblem d st =
     st\<lparr>currentProblem := genProblem (config st) d, userInput := [],
        inputClass := classNeutral\<rparr>"

subsection \<open>accuracy and endGame\<close>

text \<open>
  \<^verbatim>\<open>
  const correctCount = sessionHistory.filter(h => h.isCorrect).length;
  const accuracy = sessionHistory.length > 0
    ? Math.round((correctCount / sessionHistory.length) * 100) : 0;
  \<close>
  The reactive variable \<^verbatim>\<open>accuracy\<close> of the script is the same expression.
\<close>

definition accuracy :: "HistoryItem list \<Rightarrow> int" where
  "accuracy h =
     (let correctCount = length (filter isCorrect h)
      in if length h > 0
         then Math_round (fmul (fdiv (of_nat correctCount) (of_nat (length h))) 100)
         else 0)"

text \<open>
  \<^verbatim>\<open>
  function endGame() {
    if (timerInterval) clearInterval(timerInterval);
    ...
    const record: GameRecord = { id: Date.now(), date: new Date().toISOString(),
                                 score, accuracy, config: { ...config } };
    pastGames = [record, ...pastGames].slice(0, 50);
    if (browser) localStorage.setItem('mathSprintHistory', JSON.stringify(pastGames));
    screen = 'result';
  }
  \<close>
  The two readings of the clock are arguments.
\<close>

definition newRecord :: "int \<Rightarrow> int \<Rightarrow> state \<Rightarrow> GameRecord" where
  "newRecord t_id t_date st =
     \<lparr>g_id = t_id, g_date = t_date, g_score = score st,
      g_accuracy = accuracy (sessionHistory st), g_config = config st\<rparr>"

definition endGame :: "env \<Rightarrow> int \<Rightarrow> int \<Rightarrow> state \<Rightarrow> state" where
  "endGame e t_id t_date st =
     (let st1 = clearTimer st;
          games = take 50 (newRecord t_id t_date st1 # pastGames st1);
          st2 = st1\<lparr>pastGames := games\<rparr>;
          st3 = (if browser e then st2\<lparr>storage := Some (JSON_stringify e games)\<rparr> else st2)
      in st3\<lparr>screen := result\<rparr>)"

subsection \<open>startGame, abandonGame and the countdown\<close>

text \<open>
  \<^verbatim>\<open>
  function startGame() {
    score = 0; timeLeft = 60; sessionHistory = []; userInput = '';
    inputClass = '...'; screen = 'game';
    generateProblem();
    if (timerInterval) clearInterval(timerInterval);
    timerInterval = setInterval(() => { timeLeft--; if (timeLeft <= 0) endGame(); }, 1000);
    setTimeout(() => inputEl?.focus(), 100);
  }
  \<close>
\<close>

definition startGame :: "Draws \<Rightarrow> state \<Rightarrow> state" where
  "startGame d st =
     (let st1 = st\<lparr>score := 0, timeLeft := 60, sessionHistory := [], userInput := [],
                   inputClass := classNeutral, screen := game\<rparr>;
          st2 = generateProblem d st1;
          st3 = clearTimer st2;
          h = nextHandle st3;
          st4 = st3\<lparr>intervals := intervals st3 @ [h], nextHandle := h + 1,
                    timerInterval := Some h\<rparr>
      in setTimeout CbFocus 100 st4)"

text \<open>
  \<^verbatim>\<open>
  function abandonGame() {
    if (timerInterval) clearInterval(timerInterval);
    screen = 'menu';
  }
  \<close>
\<close>

definition abandonGame :: "state \<Rightarrow> state" where
  "abandonGame st = (clearTimer st)\<lparr>screen := menu\<rparr>"

text \<open>
  One firing of the interval with handle \<open>h\<close>; the host fires only armed intervals.
  \<^verbatim>\<open>timeLeft--; if (timeLeft <= 0) endGame();\<close>
\<close>

definition tick :: "nat \<Rightarrow> env \<Rightarrow> int \<Rightarrow> int \<Rightarrow> state \<Rightarrow> state" where
  "tick h e t_id t_date st =
     (if h \<in> set (intervals st) then
        (let st1 = st\<lparr>timeLeft := timeLeft st - 1\<rparr>
         in if timeLeft st1 \<le> 0 then endGame e t_id t_date st1 else st1)
      else st)"

subsection \<open>handleAnswer and the delayed callbacks\<close>

text \<open>
  \<^verbatim>\<open>
  function handleAnswer(e: Event) {
    e.preventDefault();
    const val = parseInt(userInput);
    if (isNaN(val)) return;
    const isCorrect = val === currentProblem.answer;
    sessionHistory = [...sessionHistory, { q: currentProblem.question,
        correct: currentProblem.answer, user: val, isCorrect }];
    if (isCorrect) {
      score++;
      inputClass = 'border-emerald-500 text-emerald-500';
      setTimeout(generateProblem, 150);
    } else {
      inputClass = 'border-red-500 text-red-500';
      shaking = true;
      setTimeout(() => { shaking = false; generateProblem(); }, 400);
    }
  }
  \<close>
\<close>

definition handleAnswer :: "state \<Rightarrow> state" where
  "handleAnswer st =
     (case parseInt (userInput st) of
        None \<Rightarrow> st
      | Some val \<Rightarrow>
          (let ok = (of_int val = answer (currentProblem st));
               st1 = st\<lparr>sessionHistory := sessionHistory st @
                        [\<lparr>q = question (currentProblem st),
                          correct = answer (currentProblem st),
                          user = val, isCorrect = ok\<rparr>]\<rparr>
           in if ok
              then setTimeout CbGenerate 150
                     (st1\<lparr>score := score st1 + 1, inputClass := classCorrect\<rparr>)
              else setTimeout CbShakeGenerate 400
                     (st1\<lparr>inputClass := classWrong, shaking := True\<rparr>)))"

text \<open>
  The bodies of the three callbacks given to \<^verbatim>\<open>setTimeout\<close>, and the host running the
  pending callback at position \<open>i\<close>. The script never calls \<^verbatim>\<open>clearTimeout\<close> and keeps
  no handle of a timeout, so a pending callback leaves the list only by running.
\<close>

fun runCallback :: "Callback \<Rightarrow> Draws \<Rightarrow> state \<Rightarrow> state" where
  "runCallback CbFocus d st = st"
| "runCallback CbGenerate d st = generateProblem d st"
| "runCallback CbShakeGenerate d st = generateProblem d (st\<lparr>shaking := False\<rparr>)"

definition fireTimeout :: "nat \<Rightarrow> Draws \<Rightarrow> state \<Rightarrow> state" where
  "fireTimeout i d st =
     (if i < length (timeouts st)
      then runCallback (snd (timeouts st ! i)) d
             (st\<lparr>timeouts := take i (timeouts st) @ drop (Suc i) (timeouts st)\<rparr>)
      else st)"

text \<open>The text field is bound to \<^verbatim>\<open>userInput\<close>: typing assigns it.\<close>

definition typeInput :: "string \<Rightarrow> state \<Rightarrow> state" where
  "typeInput s st = st\<lparr>userInput := s\<rparr>"

section \<open>configKey and getLeaderboards\<close>

text \<open>\<^verbatim>\<open>Array.prototype.join\<close>.\<close>

fun join :: "string \<Rightarrow> string list \<Rightarrow> string" where
  "join sep [] = []"
| "join sep [x] = x"
| "join sep (x # y # ys) = x @ sep @ join sep (y # ys)"

text \<open>
  \<^verbatim>\<open>
  function configKey(c: Config): string {
    const ops = [];
    if (c.add) ops.push('+');  if (c.sub) ops.push('-');
    if (c.mul) ops.push(<lit_mul>);  if (c.div) ops.push(<lit_div>);
    const mods = [];
    if (c.negatives) mods.push('neg');
    if (c.doubleDigits) mods.push('2x');
    return ops.join('') + (mods.length ? ` (${mods.join(', ')})` : '');
  }
  \<close>
\<close>

definition configKey :: "Config \<Rightarrow> string" where
  "configKey c =
     (let ops = (if add c then [''+''] else []) @ (if sub c then [''-''] else []) @
                (if mul c then [lit_mul] else []) @ (if div' c then [lit_div] else []);
          mods = (if negatives c then [''neg''] else []) @
                 (if doubleDigits c then [''2x''] else [])
      in join [] ops @ (if length mods \<noteq> 0 then '' ('' @ join '', '' mods @ '')'' else []))"

text \<open>
  The elements of the array that \<^verbatim>\<open>getLeaderboards\<close> returns; the fields carry the
  prefix \<open>b_\<close>.
\<close>

record Board =
  b_key :: string
  b_config :: Config
  b_entries :: "GameRecord list"

text \<open>
  \<^verbatim>\<open>Array.prototype.sort\<close> with a comparator is stable, and for a comparator that is a
  consistent ordering it returns the elements in that order: an insertion sort that puts
  an element before the first one it does not come after.
\<close>

fun insertBy :: "('a \<Rightarrow> 'a \<Rightarrow> int) \<Rightarrow> 'a \<Rightarrow> 'a list \<Rightarrow> 'a list" where
  "insertBy cmp x [] = [x]"
| "insertBy cmp x (y # ys) = (if cmp x y \<le> 0 then x # y # ys else y # insertBy cmp x ys)"

definition Array_sort :: "('a \<Rightarrow> 'a \<Rightarrow> int) \<Rightarrow> 'a list \<Rightarrow> 'a list" where
  "Array_sort cmp xs = foldr (insertBy cmp) xs []"

text \<open>
  A \<^verbatim>\<open>Map\<close> iterates in the order in which its keys were first set: an association list.
  \<^verbatim>\<open>
  for (const g of games) {
    const k = configKey(g.config);
    if (!map.has(k)) map.set(k, { config: g.config, entries: [] });
    map.get(k)!.entries.push(g);
  }
  \<close>
\<close>

type_synonym boardMap = "(string \<times> Config \<times> GameRecord list) list"

definition addGame :: "boardMap \<Rightarrow> GameRecord \<Rightarrow> boardMap" where
  "addGame m g =
     (let k = configKey (g_config g);
          m1 = (if map_of m k = None then m @ [(k, g_config g, [])] else m)
      in map (\<lambda>(k', c, es). if k' = k then (k', c, es @ [g]) else (k', c, es)) m1)"

definition groupGames :: "GameRecord list \<Rightarrow> boardMap" where
  "groupGames games = foldl addGame [] games"

text \<open>
  \<^verbatim>\<open>
  v.entries.sort((a, b) => b.score - a.score
                        || new Date(b.date).getTime() - new Date(a.date).getTime());
  v.entries = v.entries.slice(0, 10);
  \<close>
\<close>

definition cmpEntries :: "GameRecord \<Rightarrow> GameRecord \<Rightarrow> int" where
  "cmpEntries a b =
     (if g_score b - g_score a \<noteq> 0 then g_score b - g_score a else g_date b - g_date a)"

definition rankEntries :: "GameRecord list \<Rightarrow> GameRecord list" where
  "rankEntries es = take 10 (Array_sort cmpEntries es)"

text \<open>
  \<^verbatim>\<open>
  return Array.from(map.entries())
    .map(([key, val]) => ({ key, ...val }))
    .sort((a, b) => new Date(b.entries[0]?.date || 0).getTime()
                  - new Date(a.entries[0]?.date || 0).getTime());
  \<close>
\<close>

definition topDate :: "Board \<Rightarrow> int" where
  "topDate b = (case b_entries b of [] \<Rightarrow> 0 | e # _ \<Rightarrow> g_date e)"

definition cmpBoards :: "Board \<Rightarrow> Board \<Rightarrow> int" where
  "cmpBoards a b = topDate b - topDate a"

definition getLeaderboards :: "GameRecord list \<Rightarrow> Board list" where
  "getLeaderboards games =
     Array_sort cmpBoards
       (map (\<lambda>(k, c, es). \<lparr>b_key = k, b_config = c, b_entries = rankEntries es\<rparr>)
          (groupGames games))"

text \<open>The order of a leaderboard, as a relation: higher score first, then later date.\<close>

definition ranksBefore :: "GameRecord \<Rightarrow> GameRecord \<Rightarrow> bool" where
  "ranksBefore a b \<longleftrightarrow>
     g_score a > g_score b \<or> (g_score a = g_score b \<and> g_date a \<ge> g_date b)"

section \<open>Reading a displayed question\<close>

text \<open>
  The arithmetic reading of a question, against which the answers are compared. It
  knows nothing of the page: three fields separated by single spaces; an operand is a
  decimal numeral, or a negative one written \<^verbatim>\<open>(-n)\<close>; the sign in the middle is the
  plus sign, the hyphen-minus or the minus sign U+2212, the multiplication sign U+00D7,
  or the division sign U+00F7. A division is read only when it leaves no remainder, and
  any other text has no reading.
\<close>

fun splitOn :: "char \<Rightarrow> string \<Rightarrow> string list" where
  "splitOn c [] = [[]]"
| "splitOn c (x # xs) =
     (if x = c then [] # splitOn c xs
      else (case splitOn c xs of [] \<Rightarrow> [[x]] | w # ws \<Rightarrow> (x # w) # ws))"

definition readNat :: "string \<Rightarrow> nat option" where
  "readNat s = (if s \<noteq> [] \<and> list_all (isDigit 10) s then Some (digitsValue 10 s) else None)"

definition readOperand :: "string \<Rightarrow> int option" where
  "readOperand s =
     (if 3 \<le> length s \<and> startsWith s ''(-'' \<and> last s = CHR '')''
      then map_option (\<lambda>n. - int n) (readNat (butlast (drop 2 s)))
      else map_option int (readNat s))"

definition evalOp :: "string \<Rightarrow> int \<Rightarrow> int \<Rightarrow> int option" where
  "evalOp symbol x y =
     (if symbol = ''+'' then Some (x + y)
      else if symbol = ''-'' \<or> symbol = minus_sign then Some (x - y)
      else if symbol = multiplication_sign then Some (x * y)
      else if symbol = division_sign
        then (if y \<noteq> 0 \<and> x mod y = 0 then Some (x div y) else None)
      else None)"

definition evalQuestion :: "string \<Rightarrow> int option" where
  "evalQuestion s =
     (case splitOn CHR '' '' s of
        [a, symbol, b] \<Rightarrow>
          (case (readOperand a, readOperand b) of
             (Some x, Some y) \<Rightarrow> evalOp symbol x y
           | _ \<Rightarrow> None)
      | _ \<Rightarrow> None)"

section \<open>The states the page can reach\<close>

text \<open>
  The page starts in \<open>initial stored\<close>, runs the mount callback, and then reacts to
  events: a click on a flag, on start, abandon or a navigation button, typing, a
  submission of the form, a firing of an armed interval, and the host running a pending
  \<^verbatim>\<open>setTimeout\<close> callback. The relation allows every handler in every state and every
  order of the pending callbacks, so it covers at least the runs of the page.
\<close>

inductive reachable :: "env \<Rightarrow> state \<Rightarrow> bool" for e :: env where
  r_init: "reachable e (initial stored)"
| r_mount: "reachable e st \<Longrightarrow> onMount e st = Inr st' \<Longrightarrow> reachable e st'"
| r_toggle: "reachable e st \<Longrightarrow> reachable e (st\<lparr>config := toggleConfig k (config st)\<rparr>)"
| r_screen: "reachable e st \<Longrightarrow> reachable e (st\<lparr>screen := s\<rparr>)"
| r_start: "reachable e st \<Longrightarrow> reachable e (startGame d st)"
| r_abandon: "reachable e st \<Longrightarrow> reachable e (abandonGame st)"
| r_type: "reachable e st \<Longrightarrow> reachable e (typeInput s st)"
| r_submit: "reachable e st \<Longrightarrow> reachable e (handleAnswer st)"
| r_tick: "reachable e st \<Longrightarrow> reachable e (tick h e t_id t_date st)"
| r_fire: "reachable e st \<Longrightarrow> reachable e (fireTimeout i d st)"

section \<open>Concrete inputs\<close>

text \<open>
  Values of \<^verbatim>\<open>Math.random()\<close> (binary64: their denominators are powers of 2) that
  pick the first enabled operator and, in the range 1 to 12, the operands 4 and 3,
  7 and 5, and 9 and 2.
\<close>

definition draws43 :: Draws where
  "draws43 = \<lparr>r_op = 0, r_num1 = 1 / 4, r_num2 = 3 / 16, r_neg1 = 0, r_neg2 = 0\<rparr>"

definition draws75 :: Draws where
  "draws75 = \<lparr>r_op = 0, r_num1 = 1 / 2, r_num2 = 3 / 8, r_neg1 = 0, r_neg2 = 0\<rparr>"

definition draws92 :: Draws where
  "draws92 = \<lparr>r_op = 0, r_num1 = 11 / 16, r_num2 = 1 / 8, r_neg1 = 0, r_neg2 = 0\<rparr>"

text \<open>
  A host to run the model on, in the browser. Its \<^verbatim>\<open>JSON.parse\<close> accepts the text
  \<^verbatim>\<open>[]\<close> only; it agrees with the host's function on the two texts used below
  (\<^verbatim>\<open>JSON.parse("[]")\<close> is the empty array and \<^verbatim>\<open>JSON.parse("{not json")\<close> throws).
  Its \<^verbatim>\<open>JSON.stringify\<close> is a placeholder that writes only the number of records; no
  property below depends on the text it writes.
\<close>

definition demoHost :: env where
  "demoHost =
     \<lparr>browser = True,
      JSON_parse = (\<lambda>s. if s = ''[]'' then Inr [] else Inl SyntaxError),
      JSON_stringify = (\<lambda>games. dec (length games))\<rparr>"

text \<open>A record with a given score and date, played with the initial configuration.\<close>

definition scored :: "int \<Rightarrow> int \<Rightarrow> GameRecord" where
  "scored s t = \<lparr>g_id = t, g_date = t, g_score = s, g_accuracy = 100, g_config = config0\<rparr>"




text \<open>A round just started on a fresh page; its problem is \<^verbatim>\<open>4 + 3\<close>.\<close>

definition round43 :: state where
  "round43 = startGame draws43 (initial None)"

text \<open>
  A run of the page: a round is started and its focus callback runs; the wrong answer 8
  is submitted (the callback that replaces the problem is due 400 ms later); within that
  time the round is abandoned and a new round is started from the menu, with the problem
  \<^verbatim>\<open>7 + 5\<close>; then the callback of the abandoned round runs.
\<close>

definition abandoned :: state where
  "abandoned = abandonGame (handleAnswer (typeInput ''8'' (fireTimeout 0 draws43 round43)))"

definition staleRun :: state where
  "staleRun = fireTimeout 0 draws92 (startGame draws75 abandoned)"

text \<open>
  What the handlers keep true of the countdown: an armed interval is the one whose
  handle \<^verbatim>\<open>timerInterval\<close> holds, and handles are not 0.
\<close>

definition timerInv :: "state \<Rightarrow> bool" where
  "timerInv st \<longleftrightarrow>
     (\<forall>h \<in> set (intervals st). timerInterval st = Some h \<and> h \<noteq> 0) \<and> nextHandle st \<noteq> 0"

text \<open>
  After the loop over \<open>games\<close>, the map has one entry for each key that occurs, and the
  entry of a key holds the games of that key in their order in \<open>games\<close>.
\<close>

definition grouped :: "boardMap \<Rightarrow> GameRecord list \<Rightarrow> bool" where
  "grouped m games \<longleftrightarrow>
     distinct (map fst m) \<and>
     set (map fst m) = (\<lambda>g. configKey (g_config g)) ` set games \<and>
     (\<forall>(k, c, es) \<in> set m. es = filter (\<lambda>g. configKey (g_config g) = k) games)"

text \<open>
  Five stored records: three played with the initial configuration, one with only the
  subtraction and one with only the division.
\<close>

definition demoGames :: "GameRecord list" where
  "demoGames =
     [scored 10 1, (scored 5 9)\<lparr>g_config := onlySub\<rparr>, scored 20 2, scored 20 3,
      (scored 7 2)\<lparr>g_config := onlyDiv\<rparr>]"

section \<open>Rounding to binary64\<close>

lemma pow2_pos: "0 < pow2 e"
  by (simp add: pow2_def)

lemma pow2_neg: "e \<le> 0 \<Longrightarrow> pow2 e = 1 / 2 ^ nat (- e)"
  by (simp add: pow2_def)

lemma pow2_Suc: "pow2 (e + 1) = 2 * pow2 e"
proof (cases "0 \<le> e")
  case True
  then show ?thesis by (simp add: pow2_def nat_add_distrib)
next
  case False
  then have "nat (- e) = Suc (nat (- (e + 1)))" by simp
  with False show ?thesis by (simp add: pow2_def)
qed

lemma pow2_mono: "a \<le> b \<Longrightarrow> pow2 a \<le> pow2 b"
proof -
  have step: "pow2 a \<le> pow2 (a + int k)" for k
  proof (induction k)
    case 0
    show ?case by simp
  next
    case (Suc k)
    have "pow2 (a + int (Suc k)) = 2 * pow2 (a + int k)"
      using pow2_Suc [of "a + int k"] by (simp add: algebra_simps)
    with Suc pow2_pos [of "a + int k"] show ?case by simp
  qed
  assume "a \<le> b"
  then have "b = a + int (nat (b - a))" by simp
  with step [of "nat (b - a)"] show ?thesis by simp
qed

text \<open>The exponent is the one of the binade that holds \<open>x\<close>.\<close>

lemma expo_bounds:
  assumes "0 < x"
  shows "pow2 (expo x) \<le> x" and "x < pow2 (expo x + 1)"
proof -
  have "pow2 (expo x) \<le> x \<and> x < pow2 (expo x + 1)"
  proof (cases "1 \<le> x")
    case True
    let ?n = "\<lfloor>x\<rfloor>"
    from True have n: "0 < ?n" by simp
    from bitlen_bounds [OF n]
    have lo: "2 ^ nat (bitlen ?n - 1) \<le> ?n" and hi: "?n < 2 ^ nat (bitlen ?n)"
      by simp_all
    have b1: "1 \<le> bitlen ?n"
      using n bitlen_eq_zero_iff [of ?n] bitlen_nonneg [of ?n] by linarith
    have e: "expo x = bitlen ?n - 1"
      using True by (simp add: expo_def)
    have "pow2 (expo x) = of_int (2 ^ nat (bitlen ?n - 1))"
      using b1 by (simp add: e pow2_def)
    also have "\<dots> \<le> of_int ?n"
      using lo by (simp only: of_int_le_iff)
    also have "\<dots> \<le> x" by simp
    finally have l: "pow2 (expo x) \<le> x" .
    have "?n + 1 \<le> 2 ^ nat (bitlen ?n)" using hi by simp
    then have "(of_int (?n + 1) :: rat) \<le> of_int (2 ^ nat (bitlen ?n))"
      by (simp only: of_int_le_iff)
    moreover have "x < of_int (?n + 1)" by linarith
    moreover have "pow2 (expo x + 1) = of_int (2 ^ nat (bitlen ?n))"
      using b1 by (simp add: e pow2_def)
    ultimately have "x < pow2 (expo x + 1)" by simp
    with l show ?thesis by simp
  next
    case False
    let ?m = "\<lceil>1 / x\<rceil> - 1"
    from False assms have inv: "1 < 1 / x" by simp
    then have "1 < \<lceil>1 / x\<rceil>" by (simp add: less_ceiling_iff)
    then have m: "0 < ?m" by simp
    from bitlen_bounds [OF m]
    have lo: "2 ^ nat (bitlen ?m - 1) \<le> ?m" and hi: "?m < 2 ^ nat (bitlen ?m)"
      by simp_all
    have b1: "1 \<le> bitlen ?m"
      using m bitlen_eq_zero_iff [of ?m] bitlen_nonneg [of ?m] by linarith
    have e: "expo x = - bitlen ?m"
      using False by (simp add: expo_def)
    from hi have "\<lceil>1 / x\<rceil> \<le> 2 ^ nat (bitlen ?m)" by simp
    then have "1 / x \<le> of_int (2 ^ nat (bitlen ?m))"
      by (simp only: ceiling_le_iff)
    then have "1 / x \<le> 2 ^ nat (bitlen ?m)" by simp
    then have "1 \<le> 2 ^ nat (bitlen ?m) * x"
      using assms by (simp add: field_simps)
    then have l: "pow2 (expo x) \<le> x"
      using b1 by (simp add: e pow2_def field_simps)
    from lo have "2 ^ nat (bitlen ?m - 1) < \<lceil>1 / x\<rceil>" by simp
    then have "of_int (2 ^ nat (bitlen ?m - 1)) < 1 / x"
      by (simp only: less_ceiling_iff)
    then have "2 ^ nat (bitlen ?m - 1) < 1 / x" by simp
    then have u: "2 ^ nat (bitlen ?m - 1) * x < 1"
      using assms by (simp add: field_simps)
    have "nat (bitlen ?m) = Suc (nat (bitlen ?m - 1))" using b1 by simp
    then have p: "pow2 (expo x + 1) = 1 / 2 ^ nat (bitlen ?m - 1)"
      using b1 by (simp add: e pow2_def)
    from u have "x < 1 / 2 ^ nat (bitlen ?m - 1)"
      by (simp add: pos_less_divide_eq mult.commute)
    with p have "x < pow2 (expo x + 1)"
      by simp
    with l show ?thesis by simp
  qed
  then show "pow2 (expo x) \<le> x" and "x < pow2 (expo x + 1)" by simp_all
qed

lemma expo_less:
  assumes "0 < x" and "x < pow2 b"
  shows "expo x < b"
proof (rule ccontr)
  assume "\<not> expo x < b"
  then have "pow2 b \<le> pow2 (expo x)" by (simp add: pow2_mono)
  with expo_bounds(1) [OF assms(1)] assms(2) show False by simp
qed

lemma rne_of_int: "rne (of_int m) = m"
  by (simp add: rne_def)

lemma rne_cases: "rne x = \<lfloor>x\<rfloor> \<or> (rne x = \<lfloor>x\<rfloor> + 1 \<and> of_int \<lfloor>x\<rfloor> < x)"
  by (auto simp: rne_def Let_def)

lemma rne_le: "x \<le> of_int m \<Longrightarrow> rne x \<le> m"
proof -
  assume le: "x \<le> of_int m"
  then have f: "\<lfloor>x\<rfloor> \<le> m" by (simp add: floor_le_iff)
  from rne_cases [of x] show ?thesis
  proof
    assume "rne x = \<lfloor>x\<rfloor>"
    with f show ?thesis by simp
  next
    assume a: "rne x = \<lfloor>x\<rfloor> + 1 \<and> of_int \<lfloor>x\<rfloor> < x"
    with le have "(of_int \<lfloor>x\<rfloor> :: rat) < of_int m" by linarith
    then have "\<lfloor>x\<rfloor> < m" by (simp only: of_int_less_iff)
    with a show ?thesis by simp
  qed
qed

lemma rne_ge: "of_int m \<le> x \<Longrightarrow> m \<le> rne x"
proof -
  assume "of_int m \<le> x"
  then have "m \<le> \<lfloor>x\<rfloor>" by (simp add: le_floor_iff)
  with rne_cases [of x] show ?thesis by auto
qed

text \<open>
  Rounding never crosses an integer that is itself a binary64 value of the binade or
  below it: for \<open>\<bar>x\<bar> < 2^53\<close> the unit in the last place is at most 1.
\<close>

lemma fl_scaled:
  assumes "x \<noteq> 0" and "\<bar>x\<bar> < pow2 53"
  shows "\<exists>k. fl x = of_int (rne (x * 2 ^ k)) / 2 ^ k"
proof -
  have "expo \<bar>x\<bar> < 53"
    using assms by (intro expo_less) simp_all
  then have e: "expo \<bar>x\<bar> - 52 \<le> 0" by simp
  show ?thesis
    using assms(1) by (intro exI [of _ "nat (- (expo \<bar>x\<bar> - 52))"])
      (simp add: fl_def Let_def pow2_neg [OF e])
qed

lemma fl_le_int:
  assumes "x \<le> of_int m" and "\<bar>x\<bar> < pow2 53"
  shows "fl x \<le> of_int m"
proof (cases "x = 0")
  case True
  with assms show ?thesis by (simp add: fl_def)
next
  case False
  from fl_scaled [OF False assms(2)]
  obtain k where k: "fl x = of_int (rne (x * 2 ^ k)) / 2 ^ k" ..
  have "x * 2 ^ k \<le> of_int (m * 2 ^ k)"
    using assms(1) by simp
  then have "rne (x * 2 ^ k) \<le> m * 2 ^ k" by (rule rne_le)
  then have "(of_int (rne (x * 2 ^ k)) :: rat) \<le> of_int (m * 2 ^ k)"
    by (simp only: of_int_le_iff)
  then show ?thesis
    by (simp add: k field_simps)
qed

lemma fl_ge_int:
  assumes "of_int m \<le> x" and "\<bar>x\<bar> < pow2 53"
  shows "of_int m \<le> fl x"
proof (cases "x = 0")
  case True
  with assms show ?thesis by (simp add: fl_def)
next
  case False
  from fl_scaled [OF False assms(2)]
  obtain k where k: "fl x = of_int (rne (x * 2 ^ k)) / 2 ^ k" ..
  have "of_int (m * 2 ^ k) \<le> x * 2 ^ k"
    using assms(1) by simp
  then have "m * 2 ^ k \<le> rne (x * 2 ^ k)" by (rule rne_ge)
  then have "(of_int (m * 2 ^ k) :: rat) \<le> of_int (rne (x * 2 ^ k))"
    by (simp only: of_int_le_iff)
  then show ?thesis
    by (simp add: k field_simps)
qed

text \<open>Integers below \<open>2^53\<close> in magnitude are binary64 values.\<close>

lemma fl_of_int:
  assumes "\<bar>n\<bar> < 2 ^ 53"
  shows "fl (of_int n) = of_int n"
proof -
  have "\<bar>of_int n :: rat\<bar> = of_int \<bar>n\<bar>" by simp
  also have "\<dots> < of_int (2 ^ 53)" using assms by (simp only: of_int_less_iff)
  finally have b: "\<bar>of_int n :: rat\<bar> < pow2 53" by (simp add: pow2_def)
  have "fl (of_int n) \<le> of_int n" by (rule fl_le_int [OF _ b]) simp
  moreover have "of_int n \<le> fl (of_int n)" by (rule fl_ge_int [OF _ b]) simp
  ultimately show ?thesis by simp
qed

text \<open>Rounding changes a value by at most half a unit in the last place.\<close>

lemma pow2_add_nat: "pow2 (e + int n) = pow2 e * 2 ^ n"
proof (induction n)
  case 0
  show ?case by simp
next
  case (Suc n)
  have "pow2 (e + int (Suc n)) = pow2 ((e + int n) + 1)"
    by (simp add: algebra_simps)
  also have "\<dots> = 2 * pow2 (e + int n)" by (rule pow2_Suc)
  finally show ?case by (simp add: Suc)
qed



section \<open>Properties of toggleConfig\<close>

lemma toggleConfig_keeps_operator:
  assumes "someOperator c"
  shows "someOperator (toggleConfig key c)"
  using assms
  by (cases key; cases "add c"; cases "sub c"; cases "mul c"; cases "div' c";
      simp add: toggleConfig_def someOperator_def activeOps_def)

lemma toggleConfig_sole_operator:
  assumes "key \<in> {Kadd, Ksub, Kmul, Kdiv}" and "getFlag c key" and "activeOps c = 1"
  shows "toggleConfig key c = c"
  using assms by (auto simp: toggleConfig_def)

lemma toggleConfig_modifier:
  "toggleConfig Knegatives c = c\<lparr>negatives := \<not> negatives c\<rparr>"
  "toggleConfig KdoubleDigits c = c\<lparr>doubleDigits := \<not> doubleDigits c\<rparr>"
  by (simp_all add: toggleConfig_def)

text \<open>
  Claim C5. Starting from any configuration with at least one operator flag set, and for
  every flag key, \<open>toggleConfig\<close> leaves at least one of add/sub/mul/div set. Toggling an
  operator flag that is the only one set changes nothing, and toggling \<open>negatives\<close> or
  \<open>doubleDigits\<close> is never blocked: it flips that flag and nothing else.
\<close>

theorem toggleConfig_invariant:
  assumes "someOperator c"
  shows "someOperator (toggleConfig key c) \<and>
         (key \<in> {Kadd, Ksub, Kmul, Kdiv} \<and> getFlag c key \<and> activeOps c = 1
            \<longrightarrow> toggleConfig key c = c) \<and>
         toggleConfig Knegatives c = c\<lparr>negatives := \<not> negatives c\<rparr> \<and>
         toggleConfig KdoubleDigits c = c\<lparr>doubleDigits := \<not> doubleDigits c\<rparr>"
proof (intro conjI impI)
  show "someOperator (toggleConfig key c)"
    using assms by (rule toggleConfig_keeps_operator)
next
  assume "key \<in> {Kadd, Ksub, Kmul, Kdiv} \<and> getFlag c key \<and> activeOps c = 1"
  then show "toggleConfig key c = c"
    using toggleConfig_sole_operator by blast
next
  show "toggleConfig Knegatives c = c\<lparr>negatives := \<not> negatives c\<rparr>"
    by (rule toggleConfig_modifier)
next
  show "toggleConfig KdoubleDigits c = c\<lparr>doubleDigits := \<not> doubleDigits c\<rparr>"
    by (rule toggleConfig_modifier)
qed

theorem toggleConfig_invariant_witness:
  "someOperator onlySub \<and> getFlag onlySub Ksub \<and> activeOps onlySub = 1 \<and>
   someOperator (toggleConfig Ksub onlySub) \<and> toggleConfig Ksub onlySub = onlySub \<and>
   negatives (toggleConfig Knegatives onlySub)"
  using toggleConfig_invariant [of onlySub Ksub]
  by (simp add: someOperator_def onlySub_def activeOps_def)

section \<open>The end of a round\<close>

lemma clearTimer_fields [simp]:
  "score (clearTimer st) = score st"
  "sessionHistory (clearTimer st) = sessionHistory st"
  "config (clearTimer st) = config st"
  "pastGames (clearTimer st) = pastGames st"
  "timeouts (clearTimer st) = timeouts st"
  "currentProblem (clearTimer st) = currentProblem st"
  "screen (clearTimer st) = screen st"
  "timerInterval (clearTimer st) = timerInterval st"
  "nextHandle (clearTimer st) = nextHandle st"
  by (simp_all add: clearTimer_def clearInterval_def split: option.splits)

lemma endGame_pastGames:
  "pastGames (endGame e t_id t_date st) = take 50 (newRecord t_id t_date st # pastGames st)"
  by (simp add: endGame_def Let_def newRecord_def)

lemma endGame_storage:
  "browser e \<Longrightarrow>
   storage (endGame e t_id t_date st) = Some (JSON_stringify e (pastGames (endGame e t_id t_date st)))"
  by (simp add: endGame_def Let_def)

lemma endGame_screen: "screen (endGame e t_id t_date st) = result"
  by (simp add: endGame_def Let_def)

lemma tick_expires:
  assumes "h \<in> set (intervals st)" and "timeLeft st \<le> 1"
  shows "tick h e t_id t_date st = endGame e t_id t_date (st\<lparr>timeLeft := timeLeft st - 1\<rparr>)"
  using assms by (simp add: tick_def Let_def)

text \<open>
  Claim C8. When the countdown expires (the armed interval fires with at most one
  second left), the record built from the round (\<open>newRecord\<close>: the two clock readings,
  the score, the accuracy and the configuration) is put in front of \<open>pastGames\<close> and the
  list is cut to its first 50 entries: the new record is first, the 49 most recent old
  ones follow, the list has at most 50 entries, and in the browser this list is what is
  written to the store.
\<close>

theorem round_end_prepends_and_caps:
  assumes "h \<in> set (intervals st)" and "timeLeft st \<le> 1"
  shows "pastGames (tick h e t_id t_date st)
           = take 50 (newRecord t_id t_date st # pastGames st) \<and>
         pastGames (tick h e t_id t_date st)
           = newRecord t_id t_date st # take 49 (pastGames st) \<and>
         length (pastGames (tick h e t_id t_date st)) \<le> 50 \<and>
         screen (tick h e t_id t_date st) = result \<and>
         (browser e \<longrightarrow>
            storage (tick h e t_id t_date st)
              = Some (JSON_stringify e (pastGames (tick h e t_id t_date st))))"
proof -
  let ?st1 = "st\<lparr>timeLeft := timeLeft st - 1\<rparr>"
  have t: "tick h e t_id t_date st = endGame e t_id t_date ?st1"
    using assms by (rule tick_expires)
  have r: "newRecord t_id t_date ?st1 = newRecord t_id t_date st"
    by (simp add: newRecord_def)
  have p: "pastGames (tick h e t_id t_date st)
             = take 50 (newRecord t_id t_date st # pastGames st)"
    by (simp add: t endGame_pastGames r)
  have c: "take 50 (newRecord t_id t_date st # pastGames st)
             = newRecord t_id t_date st # take 49 (pastGames st)"
    by (simp add: take_Cons')
  have l: "length (pastGames (tick h e t_id t_date st)) \<le> 50"
    by (simp add: p)
  show ?thesis
    using p c l by (simp add: t endGame_screen endGame_storage)
qed

text \<open>A round with 50 records already stored, one second before its end.\<close>

theorem round_end_prepends_and_caps_witness:
  "1 \<in> set (intervals ((startGame draws43 (initial None))
                          \<lparr>timeLeft := 1, pastGames := replicate 50 (scored 3 7)\<rparr>)) \<and>
   browser demoHost \<and>
   pastGames (tick 1 demoHost 8 9 ((startGame draws43 (initial None))
                          \<lparr>timeLeft := 1, pastGames := replicate 50 (scored 3 7)\<rparr>))
     = \<lparr>g_id = 8, g_date = 9, g_score = 0, g_accuracy = 0, g_config = config0\<rparr>
         # replicate 49 (scored 3 7) \<and>
   storage (tick 1 demoHost 8 9 ((startGame draws43 (initial None))
                          \<lparr>timeLeft := 1, pastGames := replicate 50 (scored 3 7)\<rparr>))
     = Some ''50''"
proof -
  let ?st = "(startGame draws43 (initial None))
               \<lparr>timeLeft := 1, pastGames := replicate 50 (scored 3 7)\<rparr>"
  have h: "1 \<in> set (intervals ?st)"
    by (simp add: startGame_def Let_def generateProblem_def clearTimer_def setTimeout_def
        initial_def)
  have tl: "timeLeft ?st \<le> 1" by simp
  have n: "newRecord 8 9 ?st
             = \<lparr>g_id = 8, g_date = 9, g_score = 0, g_accuracy = 0, g_config = config0\<rparr>"
    by (simp add: newRecord_def startGame_def Let_def generateProblem_def clearTimer_def
        setTimeout_def initial_def accuracy_def)
  have d: "dec 50 = ''50''"
    by (simp add: dec.simps digit_char_def)
  have b: "browser demoHost" by (simp add: demoHost_def)
  from round_end_prepends_and_caps [OF h tl, of demoHost 8 9] b
  have "pastGames (tick 1 demoHost 8 9 ?st) = newRecord 8 9 ?st # take 49 (pastGames ?st)"
    and "storage (tick 1 demoHost 8 9 ?st)
           = Some (JSON_stringify demoHost (pastGames (tick 1 demoHost 8 9 ?st)))"
    by blast+
  then show ?thesis
    using h b n d by (simp add: demoHost_def)
qed

section \<open>Submitting an answer\<close>

lemma parseInt_12abc: "parseInt ''12abc'' = Some 12"
  by (simp add: parseInt_def trimStart.simps whiteSpace_def startsWith_def isDigit_def
      digit_val_def digitsValue_def)

lemma parseInt_7: "parseInt ''7'' = Some 7"
  by (simp add: parseInt_def trimStart.simps whiteSpace_def startsWith_def isDigit_def
      digit_val_def digitsValue_def)

lemma handleAnswer_NaN:
  "parseInt (userInput st) = None \<Longrightarrow> handleAnswer st = st"
  by (simp add: handleAnswer_def)

text \<open>What one scored submission does to the state.\<close>

lemma handleAnswer_scored:
  assumes "parseInt (userInput st) = Some v"
  shows "sessionHistory (handleAnswer st)
           = sessionHistory st @
             [\<lparr>q = question (currentProblem st), correct = answer (currentProblem st),
               user = v, isCorrect = (of_int v = answer (currentProblem st))\<rparr>]"
    and "score (handleAnswer st)
           = (if of_int v = answer (currentProblem st) then score st + 1 else score st)"
    and "currentProblem (handleAnswer st) = currentProblem st"
    and "userInput (handleAnswer st) = userInput st"
    and "timeouts (handleAnswer st)
           = timeouts st @ [if of_int v = answer (currentProblem st)
                            then (150, CbGenerate) else (400, CbShakeGenerate)]"
  using assms by (simp_all add: handleAnswer_def Let_def setTimeout_def)

lemma handleAnswer_changes:
  assumes "parseInt (userInput st) = Some v"
  shows "handleAnswer st \<noteq> st"
proof
  assume "handleAnswer st = st"
  then have "length (sessionHistory (handleAnswer st)) = length (sessionHistory st)"
    by simp
  then show False
    by (simp add: handleAnswer_scored(1) [OF assms])
qed

text \<open>
  Claim C10. The input \<^verbatim>\<open>12abc\<close> is neither empty nor an integer numeral, and it is not
  rejected: \<open>parseInt\<close> reads its leading digits, so submitting it appends a history
  entry with the user's answer 12 and raises the score exactly when the answer of the
  current problem is 12. A submission leaves the state as it is if and only if
  \<open>parseInt\<close> finds no leading integer in the input.
\<close>

theorem leading_integer_is_scored:
  "parseInt ''12abc'' = Some 12 \<and>
   sessionHistory (handleAnswer (typeInput ''12abc'' st))
     = sessionHistory st @
       [\<lparr>q = question (currentProblem st), correct = answer (currentProblem st),
         user = 12, isCorrect = (12 = answer (currentProblem st))\<rparr>] \<and>
   score (handleAnswer (typeInput ''12abc'' st))
     = (if 12 = answer (currentProblem st) then score st + 1 else score st) \<and>
   ((handleAnswer st = st) = (parseInt (userInput st) = None))"
proof -
  have p: "parseInt (userInput (typeInput ''12abc'' st)) = Some 12"
    by (simp add: typeInput_def parseInt_12abc)
  have n: "(handleAnswer st = st) = (parseInt (userInput st) = None)"
    using handleAnswer_NaN handleAnswer_changes by (cases "parseInt (userInput st)") auto
  show ?thesis
    using handleAnswer_scored(1,2) [OF p] n by (simp add: parseInt_12abc typeInput_def)
qed

text \<open>On the problem \<^verbatim>\<open>4 + 3\<close>: the entry records 12 as a wrong answer.\<close>

theorem leading_integer_is_scored_witness:
  "sessionHistory (handleAnswer (typeInput ''12abc'' round43))
     = [\<lparr>q = ''4 + 3'', correct = 7, user = 12, isCorrect = False\<rparr>] \<and>
   score (handleAnswer (typeInput ''12abc'' round43)) = 0"
proof -
  have c: "currentProblem round43 = \<lparr>question = ''4 + 3'', answer = 7\<rparr>"
    by code_simp
  have h: "sessionHistory round43 = []" and s: "score round43 = 0"
    by (simp_all add: round43_def startGame_def Let_def setTimeout_def generateProblem_def)
  show ?thesis
    using leading_integer_is_scored [of round43] by (simp add: c h s)
qed

section \<open>A second submission before the next problem\<close>

text \<open>
  Claim C3, as stated, fails: on the problem \<^verbatim>\<open>4 + 3\<close> with \<^verbatim>\<open>7\<close> in the field, two
  submissions in a row (the callback that replaces the problem still pending) are both
  scored. The score is 2 and the history has two entries for the one problem.
\<close>

theorem second_submission_counterexample:
  "score (handleAnswer (handleAnswer (typeInput ''7'' round43))) = 2 \<and>
   map q (sessionHistory (handleAnswer (handleAnswer (typeInput ''7'' round43))))
     = [''4 + 3'', ''4 + 3''] \<and>
   map isCorrect (sessionHistory (handleAnswer (handleAnswer (typeInput ''7'' round43))))
     = [True, True] \<and>
   currentProblem (handleAnswer (typeInput ''7'' round43)) = currentProblem round43 \<and>
   timeouts (handleAnswer (typeInput ''7'' round43)) = [(100, CbFocus), (150, CbGenerate)]"
  by code_simp

text \<open>
  Claim C3, amended. \<open>handleAnswer\<close> has no guard: while the callback that replaces
  the problem is pending, a second submission is scored like the first. After two
  submissions of an input with a leading integer \<open>v\<close> the history has two more entries
  for the same problem, and the score has risen by 2 when \<open>v\<close> is the answer (by 0
  otherwise); the problem and the input are unchanged, and two callbacks are pending.
\<close>

theorem second_submission_is_scored:
  assumes "parseInt (userInput st) = Some v"
  shows "sessionHistory (handleAnswer (handleAnswer st))
           = sessionHistory st @
             replicate 2
               \<lparr>q = question (currentProblem st), correct = answer (currentProblem st),
                 user = v, isCorrect = (of_int v = answer (currentProblem st))\<rparr> \<and>
         score (handleAnswer (handleAnswer st))
           = (if of_int v = answer (currentProblem st) then score st + 2 else score st) \<and>
         currentProblem (handleAnswer (handleAnswer st)) = currentProblem st \<and>
         userInput (handleAnswer (handleAnswer st)) = userInput st \<and>
         length (timeouts (handleAnswer (handleAnswer st))) = length (timeouts st) + 2"
proof -
  let ?st1 = "handleAnswer st"
  have p1: "parseInt (userInput ?st1) = Some v"
    using assms by (simp add: handleAnswer_scored(4))
  have c1: "currentProblem ?st1 = currentProblem st"
    using assms by (rule handleAnswer_scored(3))
  show ?thesis
    by (simp add: handleAnswer_scored [OF p1] handleAnswer_scored [OF assms] numeral_2_eq_2)
qed

theorem second_submission_is_scored_witness:
  "parseInt (userInput (typeInput ''7'' round43)) = Some 7 \<and>
   score (handleAnswer (handleAnswer (typeInput ''7'' round43)))
     = score (typeInput ''7'' round43) + 2 \<and>
   length (sessionHistory (handleAnswer (handleAnswer (typeInput ''7'' round43)))) = 2"
proof -
  have p: "parseInt (userInput (typeInput ''7'' round43)) = Some 7"
    by (simp add: typeInput_def parseInt_7)
  have c: "answer (currentProblem (typeInput ''7'' round43)) = 7"
    by code_simp
  have h: "sessionHistory (typeInput ''7'' round43) = []"
    by (simp add: typeInput_def round43_def startGame_def Let_def setTimeout_def
        generateProblem_def)
  show ?thesis
    using second_submission_is_scored [OF p] p by (simp add: c h)
qed

section \<open>Loading the stored records\<close>

text \<open>
  Claim C7, as stated, fails: with a stored text that is not JSON, the mount callback
  ends with the \<^verbatim>\<open>SyntaxError\<close> of \<^verbatim>\<open>JSON.parse\<close> instead of an empty list.
\<close>

theorem onMount_corrupt_counterexample:
  "JSON_parse demoHost ''{not json'' = Inl SyntaxError \<and>
   onMount demoHost (initial (Some ''{not json'')) = Inl SyntaxError"
  by (simp add: onMount_def demoHost_def initial_def)

text \<open>
  Claim C7, amended. When the stored value is absent (or the empty text, or the page is
  not in the browser), the mount callback raises nothing and leaves the state as it is,
  so on a fresh page the record list is empty. When the store holds a text, the result
  of \<^verbatim>\<open>JSON.parse\<close> is taken as it comes: a parsed list becomes \<open>pastGames\<close>, and the
  error thrown for a corrupt text is not handled and ends the mount callback.
\<close>

theorem onMount_load:
  "(storage st = None \<or> storage st = Some [] \<or> \<not> browser e \<longrightarrow> onMount e st = Inr st) \<and>
   pastGames (initial stored) = [] \<and>
   (browser e \<and> storage st = Some blob \<and> blob \<noteq> [] \<longrightarrow>
      onMount e st = (case JSON_parse e blob of
                        Inl err \<Rightarrow> Inl err
                      | Inr games \<Rightarrow> Inr (st\<lparr>pastGames := games\<rparr>)))"
  by (auto simp: onMount_def initial_def split: option.splits sum.splits)

theorem onMount_load_witness:
  "storage (initial None) = None \<and>
   onMount demoHost (initial None) = Inr (initial None) \<and>
   browser demoHost \<and> storage (initial (Some ''[]'')) = Some ''[]'' \<and>
   onMount demoHost (initial (Some ''[]'')) = Inr (initial (Some ''[]''))"
proof -
  have a: "storage (initial None) = None"
    and b: "storage (initial (Some ''[]'')) = Some ''[]''"
    and c: "browser demoHost"
    and d: "JSON_parse demoHost ''[]'' = Inr []"
    and p: "(initial (Some ''[]''))\<lparr>pastGames := []\<rparr> = initial (Some ''[]'')"
    by (simp_all add: initial_def demoHost_def)
  show ?thesis
    using onMount_load [of "initial None" demoHost None "[]"]
      onMount_load [of "initial (Some ''[]'')" demoHost None "''[]''"]
    by (simp add: a b c d p)
qed

section \<open>Timers when a round is left\<close>

lemma timerInv_initial: "timerInv (initial stored)"
  by (simp add: timerInv_def initial_def)

lemma timerInv_onMount: "timerInv st \<Longrightarrow> onMount e st = Inr st' \<Longrightarrow> timerInv st'"
  by (auto simp: onMount_def timerInv_def split: if_splits option.splits sum.splits)

lemma clearTimer_intervals: "timerInv st \<Longrightarrow> intervals (clearTimer st) = []"
proof (cases "timerInterval st")
  case None
  assume "timerInv st"
  with None have "set (intervals st) = {}" by (auto simp: timerInv_def)
  with None show ?thesis by (simp add: clearTimer_def)
next
  case (Some h)
  assume inv: "timerInv st"
  with Some have all: "\<forall>k \<in> set (intervals st). k = h \<and> h \<noteq> 0"
    by (auto simp: timerInv_def)
  show ?thesis
  proof (cases "h = 0")
    case True
    with all have "set (intervals st) = {}" by auto
    with Some True show ?thesis by (simp add: clearTimer_def)
  next
    case False
    from all have "removeAll h (intervals st) = []"
      by (auto simp: removeAll_filter_not_eq filter_empty_conv)
    with Some False show ?thesis by (simp add: clearTimer_def clearInterval_def)
  qed
qed

lemma timerInv_clearTimer: "timerInv st \<Longrightarrow> timerInv (clearTimer st)"
  by (simp add: clearTimer_intervals timerInv_def)

lemma timerInv_startGame: "timerInv st \<Longrightarrow> timerInv (startGame d st)"
proof -
  assume inv: "timerInv st"
  let ?st2 = "generateProblem d (st\<lparr>score := 0, timeLeft := 60, sessionHistory := [],
                userInput := [], inputClass := classNeutral, screen := game\<rparr>)"
  have "timerInv ?st2"
    using inv by (simp add: timerInv_def generateProblem_def)
  then have c: "intervals (clearTimer ?st2) = []"
    by (rule clearTimer_intervals)
  have n: "nextHandle ?st2 \<noteq> 0"
    using inv by (simp add: timerInv_def generateProblem_def)
  show ?thesis
    using c n by (simp add: startGame_def Let_def setTimeout_def timerInv_def)
qed

lemma timerInv_abandonGame: "timerInv st \<Longrightarrow> timerInv (abandonGame st)"
  by (simp add: abandonGame_def clearTimer_intervals timerInv_def)

lemma timerInv_endGame: "timerInv st \<Longrightarrow> timerInv (endGame e t_id t_date st)"
  by (simp add: endGame_def Let_def clearTimer_intervals timerInv_def)

lemma timerInv_tick: "timerInv st \<Longrightarrow> timerInv (tick h e t_id t_date st)"
proof -
  assume inv: "timerInv st"
  then have "timerInv (st\<lparr>timeLeft := timeLeft st - 1\<rparr>)"
    by (simp add: timerInv_def)
  with inv show ?thesis
    by (simp add: tick_def Let_def timerInv_endGame)
qed

lemma timerInv_handleAnswer: "timerInv st \<Longrightarrow> timerInv (handleAnswer st)"
  by (simp add: handleAnswer_def Let_def setTimeout_def timerInv_def split: option.splits)

lemma timerInv_fireTimeout: "timerInv st \<Longrightarrow> timerInv (fireTimeout i d st)"
  by (cases "snd (timeouts st ! i)")
     (simp_all add: fireTimeout_def generateProblem_def timerInv_def)

lemma reachable_timerInv: "reachable e st \<Longrightarrow> timerInv st"
proof (induction rule: reachable.induct)
  case (r_init stored)
  show ?case by (rule timerInv_initial)
next
  case (r_mount st st')
  then show ?case by (blast intro: timerInv_onMount)
next
  case (r_toggle st k)
  then show ?case by (simp add: timerInv_def)
next
  case (r_screen st s)
  then show ?case by (simp add: timerInv_def)
next
  case (r_start st d)
  then show ?case by (simp add: timerInv_startGame)
next
  case (r_abandon st)
  then show ?case by (simp add: timerInv_abandonGame)
next
  case (r_type st s)
  then show ?case by (simp add: timerInv_def typeInput_def)
next
  case (r_submit st)
  then show ?case by (simp add: timerInv_handleAnswer)
next
  case (r_tick st h t_id t_date)
  then show ?case by (simp add: timerInv_tick)
next
  case (r_fire st i d)
  then show ?case by (simp add: timerInv_fireTimeout)
qed

lemma tick_unarmed: "intervals st = [] \<Longrightarrow> tick h e t_id t_date st = st"
  by (simp add: tick_def)

lemma fireTimeout_generates:
  assumes "i < length (timeouts st)" and "snd (timeouts st ! i) \<noteq> CbFocus"
  shows "currentProblem (fireTimeout i d st) = genProblem (config st) d"
  using assms
  by (cases "snd (timeouts st ! i)") (simp_all add: fireTimeout_def generateProblem_def)

text \<open>
  Claim C4, as stated, fails. In the run \<open>staleRun\<close> the callback scheduled by the
  abandoned round is still pending after \<open>abandonGame\<close>; it runs in the new round,
  whose problem was \<^verbatim>\<open>7 + 5\<close>, and replaces that problem by \<^verbatim>\<open>9 + 2\<close>.
\<close>

theorem stale_callback_counterexample:
  "screen abandoned = menu \<and> intervals abandoned = [] \<and>
   timeouts abandoned = [(400, CbShakeGenerate)] \<and>
   currentProblem (startGame draws75 abandoned) = \<lparr>question = ''7 + 5'', answer = 12\<rparr> \<and>
   sessionHistory (startGame draws75 abandoned) = [] \<and>
   screen staleRun = game \<and>
   currentProblem staleRun = \<lparr>question = ''9 + 2'', answer = 11\<rparr>"
  by code_simp

text \<open>
  Claim C4, amended. In every state the page can reach, abandoning or ending a round
  disarms the countdown: no interval stays armed, so a later firing of any interval
  handle changes nothing. The pending \<^verbatim>\<open>setTimeout\<close> callbacks are not cancelled: they are
  all still pending afterwards, and when one of the two feedback-delay callbacks runs
  it replaces the current problem by a new one.
\<close>

theorem leaving_round_disarms_countdown_only:
  assumes "reachable e st"
  shows "intervals (abandonGame st) = [] \<and>
         intervals (endGame e t_id t_date st) = [] \<and>
         tick h e t_id' t_date' (abandonGame st) = abandonGame st \<and>
         tick h e t_id' t_date' (endGame e t_id t_date st) = endGame e t_id t_date st \<and>
         timeouts (abandonGame st) = timeouts st \<and>
         timeouts (endGame e t_id t_date st) = timeouts st \<and>
         (i < length (timeouts st) \<and> snd (timeouts st ! i) \<noteq> CbFocus \<longrightarrow>
            currentProblem (fireTimeout i d (abandonGame st)) = genProblem (config st) d \<and>
            currentProblem (fireTimeout i d (endGame e t_id t_date st))
              = genProblem (config st) d)"
proof -
  have inv: "timerInv st"
    using assms by (rule reachable_timerInv)
  have a: "intervals (abandonGame st) = []"
    using inv by (simp add: abandonGame_def clearTimer_intervals)
  have b: "intervals (endGame e t_id t_date st) = []"
    using inv by (simp add: endGame_def Let_def clearTimer_intervals)
  have ta: "timeouts (abandonGame st) = timeouts st"
    by (simp add: abandonGame_def)
  have tb: "timeouts (endGame e t_id t_date st) = timeouts st"
    by (simp add: endGame_def Let_def)
  have ca: "config (abandonGame st) = config st"
    by (simp add: abandonGame_def)
  have cb: "config (endGame e t_id t_date st) = config st"
    by (simp add: endGame_def Let_def)
  show ?thesis
    using a b ta tb
    by (simp add: tick_unarmed fireTimeout_generates ca cb)
qed

theorem leaving_round_disarms_countdown_only_witness:
  "reachable demoHost (handleAnswer (typeInput ''8'' (fireTimeout 0 draws43 round43))) \<and>
   intervals (handleAnswer (typeInput ''8'' (fireTimeout 0 draws43 round43))) = [1] \<and>
   timeouts (handleAnswer (typeInput ''8'' (fireTimeout 0 draws43 round43)))
     = [(400, CbShakeGenerate)] \<and>
   intervals abandoned = [] \<and> timeouts abandoned = [(400, CbShakeGenerate)] \<and>
   currentProblem (fireTimeout 0 draws92 abandoned) = genProblem config0 draws92"
proof -
  let ?st = "handleAnswer (typeInput ''8'' (fireTimeout 0 draws43 round43))"
  have r: "reachable demoHost ?st"
    unfolding round43_def
    by (intro r_submit r_type r_fire r_start r_init)
  have i: "intervals ?st = [1]" by code_simp
  have t: "timeouts ?st = [(400, CbShakeGenerate)]" by code_simp
  have c: "config ?st = config0" by code_simp
  show ?thesis
    using leaving_round_disarms_countdown_only [OF r, of 8 9 1 8 9 0 draws92] r i t
    by (simp add: abandoned_def c)
qed

section \<open>Accuracy\<close>












section \<open>Decimal numerals\<close>

lemma below_ten:
  "d < 10 \<Longrightarrow> d \<in> {0, 1, 2, 3, 4, 5, 6, 7, 8, Suc 8}"
  by auto

lemma digit_char_val:
  assumes "d < 10"
  shows "digit_val (digit_char d) = Some d"
  using below_ten [OF assms]
  by (auto simp: digit_char_def digit_val_def numeral_eq_Suc)

lemma digit_char_isDigit: "d < 10 \<Longrightarrow> isDigit 10 (digit_char d)"
  by (simp add: isDigit_def digit_char_val)

lemma dec_digits: "list_all (isDigit 10) (dec n)"
proof (induction n rule: dec.induct)
  case (1 n)
  show ?case
  proof (cases "n < 10")
    case True
    then show ?thesis
      by (subst dec.simps) (simp add: digit_char_isDigit)
  next
    case False
    with 1 show ?thesis
      by (subst dec.simps) (simp add: digit_char_isDigit)
  qed
qed

lemma dec_nonempty: "dec n \<noteq> []"
  by (subst dec.simps) simp

lemma digitsValue_snoc:
  "digitsValue r (xs @ [c])
     = digitsValue r xs * r + (case digit_val c of None \<Rightarrow> 0 | Some d \<Rightarrow> d)"
  by (simp add: digitsValue_def)

lemma digitsValue_dec: "digitsValue 10 (dec n) = n"
proof (induction n rule: dec.induct)
  case (1 n)
  show ?case
  proof (cases "n < 10")
    case True
    then show ?thesis
      by (subst dec.simps) (simp add: digitsValue_def digit_char_val)
  next
    case False
    then have "digitsValue 10 (dec (n div 10)) = n div 10" by (rule 1)
    with False show ?thesis
      by (subst dec.simps) (simp add: digitsValue_snoc digit_char_val)
  qed
qed

lemma readNat_dec: "readNat (dec n) = Some n"
  by (simp add: readNat_def dec_digits dec_nonempty digitsValue_dec)

lemma digits_no_other:
  assumes "list_all (isDigit 10) s" and "\<not> isDigit 10 c"
  shows "c \<notin> set s"
  using assms by (auto simp: list_all_iff)

lemma not_digits:
  "\<not> isDigit 10 CHR '' ''" "\<not> isDigit 10 CHR ''(''" "\<not> isDigit 10 CHR ''-''"
  by (simp_all add: isDigit_def digit_val_def)

section \<open>Formatting an operand and reading it back\<close>

lemma fmt_nonneg: "0 \<le> n \<Longrightarrow> fmt n = dec (nat n)"
  by (simp add: fmt_def Number_toString_def)

lemma fmt_neg: "n < 0 \<Longrightarrow> fmt n = CHR ''('' # CHR ''-'' # dec (nat (- n)) @ '')''"
  by (simp add: fmt_def Number_toString_def)

lemma fmt_no_space: "CHR '' '' \<notin> set (fmt n)"
proof (cases "n < 0")
  case True
  have "CHR '' '' \<notin> set (dec (nat (- n)))"
    by (rule digits_no_other [OF dec_digits not_digits(1)])
  with True show ?thesis by (simp add: fmt_neg)
next
  case False
  have "CHR '' '' \<notin> set (dec (nat n))"
    by (rule digits_no_other [OF dec_digits not_digits(1)])
  with False show ?thesis by (simp add: fmt_nonneg)
qed

lemma readOperand_fmt: "readOperand (fmt n) = Some n"
proof (cases "n < 0")
  case True
  let ?ds = "dec (nat (- n))"
  have s: "fmt n = CHR ''('' # CHR ''-'' # ?ds @ '')''"
    using True by (rule fmt_neg)
  have "readNat (butlast (drop 2 (fmt n))) = Some (nat (- n))"
    by (simp add: s butlast_append readNat_dec)
  moreover have "3 \<le> length (fmt n) \<and> startsWith (fmt n) ''(-'' \<and> last (fmt n) = CHR '')''"
    by (simp add: s startsWith_def)
  ultimately show ?thesis
    using True by (simp add: readOperand_def)
next
  case False
  have s: "fmt n = dec (nat n)"
    using False by (simp add: fmt_nonneg)
  have "CHR ''('' \<notin> set (dec (nat n))"
    by (rule digits_no_other [OF dec_digits not_digits(2)])
  then have "\<not> startsWith (dec (nat n)) ''(-''"
    by (cases "dec (nat n)") (auto simp: startsWith_def)
  with False show ?thesis
    by (simp add: readOperand_def s readNat_dec)
qed

section \<open>Splitting a question into its fields\<close>

lemma splitOn_no_sep: "c \<notin> set s \<Longrightarrow> splitOn c s = [s]"
  by (induction s) auto

lemma splitOn_field: "c \<notin> set a \<Longrightarrow> splitOn c (a @ c # rest) = a # splitOn c rest"
  by (induction a) auto

lemma splitOn_question:
  assumes "CHR '' '' \<notin> set s"
  shows "splitOn CHR '' '' (fmt a @ CHR '' '' # s @ CHR '' '' # fmt b) = [fmt a, s, fmt b]"
proof -
  have "splitOn CHR '' '' (fmt a @ CHR '' '' # (s @ CHR '' '' # fmt b))
          = fmt a # splitOn CHR '' '' (s @ CHR '' '' # fmt b)"
    by (rule splitOn_field [OF fmt_no_space])
  also have "splitOn CHR '' '' (s @ CHR '' '' # fmt b) = s # splitOn CHR '' '' (fmt b)"
    by (rule splitOn_field [OF assms])
  also have "splitOn CHR '' '' (fmt b) = [fmt b]"
    by (rule splitOn_no_sep [OF fmt_no_space])
  finally show ?thesis by simp
qed

lemma evalQuestion_mkQuestion:
  assumes "CHR '' '' \<notin> set (opSymbol operator)"
  shows "evalQuestion (mkQuestion a operator b) = evalOp (opSymbol operator) a b"
  by (simp add: evalQuestion_def mkQuestion_def splitOn_question [OF assms] readOperand_fmt)

lemma opSymbol_no_space:
  assumes "op \<in> {''+'', ''-'', ''*'', ''/''}"
  shows "CHR '' '' \<notin> set (opSymbol (Some op))"
  using assms by (auto simp: opSymbol_def lit_div_def lit_mul_def)

lemma evalOp_symbols:
  "evalOp ''+'' a b = Some (a + b)"
  "evalOp ''-'' a b = Some (a - b)"
  "evalOp lit_mul a b = None"
  "evalOp lit_div a b = None"
  "evalOp multiplication_sign a b = Some (a * b)"
  "evalOp division_sign a b = (if b \<noteq> 0 \<and> a mod b = 0 then Some (a div b) else None)"
  by (simp_all add: evalOp_def lit_div_def lit_mul_def minus_sign_def
      multiplication_sign_def division_sign_def)

section \<open>The draws\<close>

lemma opsOf_set: "set (opsOf c) \<subseteq> {''+'', ''-'', ''*'', ''/''}"
  by (auto simp: opsOf_def)

lemma opsOf_length: "someOperator c \<Longrightarrow> 0 < length (opsOf c)" "length (opsOf c) \<le> 4"
  by (auto simp: opsOf_def someOperator_def)

text \<open>The largest binary64 value below 1 is \<open>1 - 2^-53\<close>.\<close>

lemma binary64_below_one:
  assumes "inUnit r" and "binary64 r"
  shows "r \<le> 1 - 1 / 2 ^ 53"
proof (cases "r < 1 / 2")
  case True
  then show ?thesis by simp
next
  case False
  from assms(1) have r1: "r < 1" by (simp add: inUnit_def)
  from False have r0: "0 < r" and rh: "1 / 2 \<le> r" by simp_all
  have "expo r < 0"
    using r0 r1 by (intro expo_less) (simp_all add: pow2_def)
  moreover have "- 1 \<le> expo r"
  proof (rule ccontr)
    assume "\<not> - 1 \<le> expo r"
    then have "pow2 (expo r + 1) \<le> pow2 (- 1)" by (intro pow2_mono) simp
    with expo_bounds(2) [OF r0] rh show False by (simp add: pow2_def)
  qed
  ultimately have e: "expo r = - 1" by simp
  define M where "M = rne (r / pow2 (- 53))"
  have p: "pow2 (- 53) = 1 / 2 ^ 53" by (simp add: pow2_def)
  have "fl r = of_int M * pow2 (- 53)"
    using r0 by (simp add: fl_def Let_def e M_def)
  with assms(2) have r: "r = of_int M / 2 ^ 53"
    by (simp add: binary64_def p)
  with r1 have "(of_int M :: rat) < 2 ^ 53" by simp
  then have "(of_int M :: rat) < of_int (2 ^ 53)" by simp
  then have "M < 2 ^ 53" by (simp only: of_int_less_iff)
  then have "M \<le> 2 ^ 53 - 1" by simp
  then have "(of_int M :: rat) \<le> of_int (2 ^ 53 - 1)" by (simp only: of_int_le_iff)
  then have "(of_int M :: rat) \<le> 2 ^ 53 - 1" by simp
  then have "(of_int M :: rat) / 2 ^ 53 \<le> (2 ^ 53 - 1) / 2 ^ 53"
    by (simp add: divide_right_mono)
  with r show ?thesis by (simp add: field_simps)
qed

lemma rne_below:
  assumes "x < of_int m - 1 / 2"
  shows "rne x < m"
proof -
  have f: "of_int \<lfloor>x\<rfloor> \<le> x" by simp
  with assms have "(of_int \<lfloor>x\<rfloor> :: rat) < of_int m" by linarith
  then have a: "\<lfloor>x\<rfloor> < m" by (simp only: of_int_less_iff)
  have b: "\<lfloor>x\<rfloor> + 1 < m" if "1 / 2 \<le> x - of_int \<lfloor>x\<rfloor>"
  proof -
    from that assms have "(of_int \<lfloor>x\<rfloor> :: rat) + 1 < of_int m" by linarith
    then have "(of_int (\<lfloor>x\<rfloor> + 1) :: rat) < of_int m" by simp
    then show ?thesis by (simp only: of_int_less_iff)
  qed
  show ?thesis
    using a b by (auto simp: rne_def Let_def not_less)
qed

text \<open>
  \<^verbatim>\<open>Math.floor(Math.random() * k)\<close> is one of \<open>0, \<dots>, k - 1\<close>: the rounded product of a
  binary64 value below 1 and \<open>k\<close> stays below \<open>k\<close>.
\<close>

lemma floor_random:
  assumes "inUnit r" and "binary64 r" and "0 < k" and "k < 2 ^ 53"
  shows "0 \<le> \<lfloor>fmul r (of_int k)\<rfloor>" and "\<lfloor>fmul r (of_int k)\<rfloor> < k"
proof -
  from assms(1) have r0: "0 \<le> r" and r1: "r < 1" by (simp_all add: inUnit_def)
  define x where "x = r * of_int k"
  have k0: "(0 :: rat) < of_int k" using assms(3) by simp
  have xk: "x < of_int k"
    using r1 k0 by (simp add: x_def)
  have x0: "0 \<le> x" using r0 k0 by (simp add: x_def)
  have "(of_int k :: rat) < of_int (2 ^ 53)" using assms(4) by (simp only: of_int_less_iff)
  then have k53: "(of_int k :: rat) < pow2 53" by (simp add: pow2_def)
  with xk x0 have b: "\<bar>x\<bar> < pow2 53" by simp
  have "of_int 0 \<le> fl x" by (rule fl_ge_int [OF _ b]) (use x0 in simp)
  then show "0 \<le> \<lfloor>fmul r (of_int k)\<rfloor>" by (simp add: fmul_def x_def)
  have "fl x < of_int k"
  proof (cases "x = 0")
    case True
    with k0 show ?thesis by (simp add: fl_def)
  next
    case False
    with x0 have xp: "0 < x" by simp
    define n where "n = nat (52 - expo x)"
    have "expo x < 53" using xp b by (intro expo_less) simp_all
    then have en: "expo x + int n = 52" by (simp add: n_def)
    have "pow2 (expo x) * 2 ^ n = pow2 (expo x + int n)" by (simp add: pow2_add_nat)
    also have "\<dots> = 2 ^ 52" by (simp add: en pow2_def)
    finally have pn: "pow2 (expo x) * 2 ^ n = 2 ^ 52" .
    have e: "expo \<bar>x\<bar> - 52 \<le> 0" "nat (- (expo \<bar>x\<bar> - 52)) = n"
      using xp \<open>expo x < 53\<close> by (simp_all add: n_def)
    have f: "fl x = of_int (rne (x * 2 ^ n)) / 2 ^ n"
      using False e(2) by (simp add: fl_def Let_def pow2_neg [OF e(1)])
    have "pow2 (expo x) * 2 ^ n \<le> x * 2 ^ n"
      using expo_bounds(1) [OF xp] by (simp add: mult_right_mono)
    with pn have lo: "2 ^ 52 \<le> x * 2 ^ n" by simp
    have "r \<le> 1 - 1 / 2 ^ 53" by (rule binary64_below_one [OF assms(1,2)])
    then have "r * (of_int k * 2 ^ n) \<le> (1 - 1 / 2 ^ 53) * (of_int k * 2 ^ n)"
      using k0 by (intro mult_right_mono) simp_all
    then have up: "x * 2 ^ n \<le> of_int k * 2 ^ n - of_int k * 2 ^ n / 2 ^ 53"
      by (simp add: x_def algebra_simps)
    have xn: "x * 2 ^ n < of_int k * 2 ^ n" using xk by simp
    from lo xn have big: "(2 :: rat) ^ 52 < of_int k * 2 ^ n" by (rule le_less_trans)
    have "(2 :: rat) ^ 52 / 2 ^ 53 < of_int k * 2 ^ n / 2 ^ 53"
      using big by (rule divide_strict_right_mono) simp
    moreover have "(2 :: rat) ^ 52 / 2 ^ 53 = 1 / 2" by simp
    ultimately have half: "1 / 2 < (of_int k :: rat) * 2 ^ n / 2 ^ 53" by (simp only:)
    from up half have "x * 2 ^ n < of_int k * 2 ^ n - 1 / 2" by linarith
    then have "x * 2 ^ n < of_int (k * 2 ^ n) - 1 / 2" by simp
    then have "rne (x * 2 ^ n) < k * 2 ^ n" by (rule rne_below)
    then have "(of_int (rne (x * 2 ^ n)) :: rat) < of_int (k * 2 ^ n)"
      by (simp only: of_int_less_iff)
    then have "(of_int (rne (x * 2 ^ n)) :: rat) < of_int k * 2 ^ n" by simp
    then have "(of_int (rne (x * 2 ^ n)) :: rat) / 2 ^ n < of_int k"
      by (simp add: pos_divide_less_eq)
    then show ?thesis by (simp only: f)
  qed
  then show "\<lfloor>fmul r (of_int k)\<rfloor> < k"
    by (simp add: fmul_def x_def floor_less_iff)
qed

lemma pickOperator_some:
  assumes "someOperator c" and "inUnit (r_op d)" and "binary64 (r_op d)"
  shows "\<exists>op \<in> {''+'', ''-'', ''*'', ''/''}. pickOperator c d = Some op"
proof -
  let ?n = "length (opsOf c)"
  let ?i = "\<lfloor>fmul (r_op d) (of_nat ?n)\<rfloor>"
  have n: "0 < int ?n" "int ?n < 2 ^ 53"
    using opsOf_length(1) [OF assms(1)] opsOf_length(2) [of c] by simp_all
  have "(of_nat ?n :: rat) = of_int (int ?n)" by simp
  then have lo: "0 \<le> ?i" and hi: "?i < int ?n"
    using floor_random [OF assms(2,3) n] by (simp_all only:)
  from lo hi have "nat ?i < ?n" by (simp only: nat_less_iff)
  with lo have i: "0 \<le> ?i \<and> nat ?i < ?n" by (simp only: simp_thms)
  then have "opsOf c ! nat ?i \<in> set (opsOf c)" by simp
  with opsOf_set have "opsOf c ! nat ?i \<in> {''+'', ''-'', ''*'', ''/''}" by blast
  moreover have "pickOperator c d = Some (opsOf c ! nat ?i)"
    using i by (simp add: pickOperator_def Let_def)
  ultimately show ?thesis by simp
qed

text \<open>An operand is never 0 and has at most two digits.\<close>

lemma genProblem_operands:
  assumes "inUnit r" and "binary64 r"
  shows "drawOperand c r rneg \<noteq> 0" and "\<bar>drawOperand c r rneg\<bar> \<le> 99"
proof -
  define j where "j = \<lfloor>fmul r 90\<rfloor>"
  define k where "k = \<lfloor>fmul r 12\<rfloor>"
  have j: "0 \<le> j" "j < 90"
    using floor_random [OF assms, of 90] by (simp_all add: j_def)
  have k: "0 \<le> k" "k < 12"
    using floor_random [OF assms, of 12] by (simp_all add: k_def)
  have d: "drawOperand c r rneg
             = (if negatives c \<and> rneg > 1 / 2
                then - (if doubleDigits c then j + 10 else k + 1)
                else (if doubleDigits c then j + 10 else k + 1))"
    by (simp add: drawOperand_def Let_def j_def k_def)
  from j k show "drawOperand c r rneg \<noteq> 0" and "\<bar>drawOperand c r rneg\<bar> \<le> 99"
    unfolding d by (simp_all only: split: if_splits) linarith+
qed

section \<open>The generated problem\<close>

lemma exact_division:
  assumes "b \<noteq> 0" and "\<bar>a\<bar> \<le> 99"
  shows "fdiv (of_int (a * b)) (of_int b) = of_int a"
proof -
  have "(of_int (a * b) :: rat) / of_int b = of_int a"
    using assms(1) by simp
  moreover have "\<bar>a\<bar> < 2 ^ 53" using assms(2) by simp
  ultimately show ?thesis by (simp add: fdiv_def fl_of_int)
qed

lemma genProblem_unfold:
  "genProblem c d =
     \<lparr>question = mkQuestion
                   (fst (compute (pickOperator c d)
                           (drawOperand c (r_num1 d) (r_neg1 d))
                           (drawOperand c (r_num2 d) (r_neg2 d))))
                   (pickOperator c d)
                   (drawOperand c (r_num2 d) (r_neg2 d)),
      answer = snd (compute (pickOperator c d)
                      (drawOperand c (r_num1 d) (r_neg1 d))
                      (drawOperand c (r_num2 d) (r_neg2 d)))\<rparr>"
  by (simp add: genProblem_def Let_def case_prod_unfold)

text \<open>
  What \<open>genProblem\<close> computes, for every configuration with an operator flag set and
  all values of \<^verbatim>\<open>Math.random()\<close> binary64 values in \<open>[0, 1)\<close>: an operator is drawn, the
  divisor is not 0, the answer is the integer the operator gives (for the division the
  dividend is \<open>num1 * num2\<close>, there is no remainder and the answer is the \<open>num1\<close> that was
  drawn), and the question of an addition or a subtraction reads as its answer. The
  question of a multiplication or a division would read as its answer with the
  multiplication sign and the division sign in the place of the two literals.
\<close>

lemma genProblem_arithmetic:
  assumes "someOperator c" and "validDraws d"
  shows "(let p = genProblem c d;
              operator = pickOperator c d;
              num1 = drawOperand c (r_num1 d) (r_neg1 d);
              num2 = drawOperand c (r_num2 d) (r_neg2 d)
          in operator \<in> {Some ''+'', Some ''-'', Some ''*'', Some ''/''} \<and> num2 \<noteq> 0 \<and>
             (operator = Some ''+'' \<longrightarrow>
                answer p = of_int (num1 + num2) \<and>
                evalQuestion (question p) = Some (num1 + num2)) \<and>
             (operator = Some ''-'' \<longrightarrow>
                answer p = of_int (num1 - num2) \<and>
                evalQuestion (question p) = Some (num1 - num2)) \<and>
             (operator = Some ''*'' \<longrightarrow>
                answer p = of_int (num1 * num2) \<and>
                question p = fmt num1 @ '' '' @ lit_mul @ '' '' @ fmt num2 \<and>
                evalQuestion (fmt num1 @ '' '' @ multiplication_sign @ '' '' @ fmt num2)
                  = Some (num1 * num2)) \<and>
             (operator = Some ''/'' \<longrightarrow>
                answer p = of_int num1 \<and> (num1 * num2) mod num2 = 0 \<and>
                question p = fmt (num1 * num2) @ '' '' @ lit_div @ '' '' @ fmt num2 \<and>
                evalQuestion (fmt (num1 * num2) @ '' '' @ division_sign @ '' '' @ fmt num2)
                  = Some num1))"
proof -
  let ?n1 = "drawOperand c (r_num1 d) (r_neg1 d)"
  let ?n2 = "drawOperand c (r_num2 d) (r_neg2 d)"
  let ?p = "genProblem c d"
  from assms(2) have u: "inUnit (r_op d)" "inUnit (r_num1 d)" "inUnit (r_num2 d)"
    and b: "binary64 (r_op d)" "binary64 (r_num1 d)" "binary64 (r_num2 d)"
    by (simp_all add: validDraws_def)
  from pickOperator_some [OF assms(1) u(1) b(1)]
  have pick: "pickOperator c d \<in> {Some ''+'', Some ''-'', Some ''*'', Some ''/''}"
    by auto
  have n2: "?n2 \<noteq> 0" by (rule genProblem_operands(1) [OF u(3) b(3)])
  have n1: "\<bar>?n1\<bar> \<le> 99" by (rule genProblem_operands(2) [OF u(2) b(2)])
  have sp: "CHR '' '' \<notin> set ''+''" "CHR '' '' \<notin> set ''-''"
    "CHR '' '' \<notin> set multiplication_sign" "CHR '' '' \<notin> set division_sign"
    by (simp_all add: multiplication_sign_def division_sign_def)
  have plus: "answer ?p = of_int (?n1 + ?n2) \<and> evalQuestion (question ?p) = Some (?n1 + ?n2)"
    if "pickOperator c d = Some ''+''"
    using that evalQuestion_mkQuestion [of "Some ''+''" ?n1 ?n2]
    by (simp add: genProblem_unfold compute_def evalOp_symbols opSymbol_def)
  have minus: "answer ?p = of_int (?n1 - ?n2) \<and> evalQuestion (question ?p) = Some (?n1 - ?n2)"
    if "pickOperator c d = Some ''-''"
    using that evalQuestion_mkQuestion [of "Some ''-''" ?n1 ?n2]
    by (simp add: genProblem_unfold compute_def evalOp_symbols opSymbol_def)
  have times: "answer ?p = of_int (?n1 * ?n2) \<and>
      question ?p = fmt ?n1 @ '' '' @ lit_mul @ '' '' @ fmt ?n2 \<and>
      evalQuestion (fmt ?n1 @ '' '' @ multiplication_sign @ '' '' @ fmt ?n2) = Some (?n1 * ?n2)"
    if "pickOperator c d = Some ''*''"
    using that
    by (simp add: genProblem_unfold compute_def mkQuestion_def opSymbol_def evalQuestion_def
        splitOn_question [OF sp(3)] readOperand_fmt evalOp_symbols)
  have divide: "answer ?p = of_int ?n1 \<and> (?n1 * ?n2) mod ?n2 = 0 \<and>
      question ?p = fmt (?n1 * ?n2) @ '' '' @ lit_div @ '' '' @ fmt ?n2 \<and>
      evalQuestion (fmt (?n1 * ?n2) @ '' '' @ division_sign @ '' '' @ fmt ?n2) = Some ?n1"
    if "pickOperator c d = Some ''/''"
    using that exact_division [OF n2 n1] n2
    by (simp add: genProblem_unfold compute_def mkQuestion_def opSymbol_def evalQuestion_def
        splitOn_question [OF sp(4)] readOperand_fmt evalOp_symbols)
  show ?thesis
    unfolding Let_def using pick n2 plus minus times divide by blast
qed

text \<open>
  Claim C1. The configuration with only the division, and values of \<^verbatim>\<open>Math.random()\<close>
  that draw the operands 4 and 3: the answer is 4 and the dividend displayed is 12, as
  the claim says. The sign between the operands is the literal of line 83 of the source
  file, stored there as the bytes \<^verbatim>\<open>C3 83 C2 B7\<close>; it is not the division sign U+00F7, so
  the question is not \<^verbatim>\<open>12 \<close>, U+00F7, \<^verbatim>\<open> 3\<close>, and it has no arithmetic reading, where the
  question of the claim reads as 4.
\<close>

theorem division_question_literal:
  "someOperator onlyDiv \<and> validDraws draws43 \<and>
   pickOperator onlyDiv draws43 = Some ''/'' \<and>
   drawOperand onlyDiv (r_num1 draws43) (r_neg1 draws43) = 4 \<and>
   drawOperand onlyDiv (r_num2 draws43) (r_neg2 draws43) = 3 \<and>
   genProblem onlyDiv draws43
     = \<lparr>question = ''12 '' @ [CHR 0xC3, CHR 0x83, CHR 0xC2, CHR 0xB7] @ '' 3'',
        answer = 4\<rparr> \<and>
   question (genProblem onlyDiv draws43) \<noteq> ''12 '' @ [CHR 0xC3, CHR 0xB7] @ '' 3'' \<and>
   division_sign = [CHR 0xC3, CHR 0xB7] \<and>
   evalQuestion (question (genProblem onlyDiv draws43)) = None \<and>
   evalQuestion (''12 '' @ division_sign @ '' 3'') = Some 4"
  by code_simp

section \<open>The display of a question\<close>

text \<open>
  Claim C6, as stated, fails: a subtraction is displayed with the ASCII hyphen-minus
  that is also the operator of the computation, not with the minus sign U+2212.
\<close>

theorem subtraction_symbol_counterexample:
  "pickOperator onlySub draws75 = Some ''-'' \<and>
   question (genProblem onlySub draws75) = ''7 - 5'' \<and>
   question (genProblem onlySub draws75) \<noteq> ''7 '' @ minus_sign @ '' 5''"
  by code_simp

text \<open>
  Claim C6, amended. For every generated problem the question is the first operand, a
  space, the symbol of the operator, a space and the second operand. An operand is
  written as its decimal numeral when it is not negative, and in parentheses with its
  minus sign when it is negative. The symbol of an addition or a subtraction is the
  ASCII operator itself, \<^verbatim>\<open>+\<close> or \<^verbatim>\<open>-\<close>; the symbol of a multiplication or a division is
  a literal of its own and not the ASCII operator.
\<close>

theorem question_display:
  "question (genProblem c d)
     = fmt (fst (compute (pickOperator c d) (drawOperand c (r_num1 d) (r_neg1 d))
                   (drawOperand c (r_num2 d) (r_neg2 d))))
       @ '' '' @ opSymbol (pickOperator c d) @ '' ''
       @ fmt (drawOperand c (r_num2 d) (r_neg2 d)) \<and>
   fmt n = (if n < 0 then ''(-'' @ dec (nat (- n)) @ '')'' else dec (nat n)) \<and>
   opSymbol (Some ''+'') = ''+'' \<and> opSymbol (Some ''-'') = ''-'' \<and>
   opSymbol (Some ''*'') = lit_mul \<and> lit_mul \<noteq> ''*'' \<and>
   opSymbol (Some ''/'') = lit_div \<and> lit_div \<noteq> ''/''"
  by (simp add: genProblem_unfold mkQuestion_def fmt_def Number_toString_def opSymbol_def
      lit_mul_def lit_div_def)

theorem question_display_witness:
  "question (genProblem (onlySub\<lparr>negatives := True\<rparr>) (draws75\<lparr>r_neg2 := 3 / 4\<rparr>))
     = ''7 - (-5)'' \<and>
   fmt (- 5) = ''(-5)'' \<and> fmt 7 = ''7''"
proof -
  let ?c = "onlySub\<lparr>negatives := True\<rparr>"
  let ?d = "draws75\<lparr>r_neg2 := 3 / 4\<rparr>"
  have p: "pickOperator ?c ?d = Some ''-''"
    by code_simp
  have a: "drawOperand ?c (r_num1 draws75) (r_neg1 draws75) = 7"
    and b: "drawOperand ?c (r_num2 draws75) (3 / 4) = - 5"
    by code_simp+
  have f: "dec 5 = ''5''" "dec 7 = ''7''"
    by (simp_all add: dec.simps digit_char_def)
  show ?thesis
    using question_display [of ?c ?d "- 5"] question_display [of ?c ?d 7]
    by (simp add: p a b f compute_def)
qed

section \<open>Sorting with a comparator\<close>

lemma set_insertBy: "set (insertBy cmp x xs) = insert x (set xs)"
  by (induction xs) auto

lemma mset_insertBy: "mset (insertBy cmp x xs) = add_mset x (mset xs)"
  by (induction xs) auto

lemma mset_Array_sort: "mset (Array_sort cmp xs) = mset xs"
  by (induction xs) (simp_all add: Array_sort_def mset_insertBy)

lemma set_Array_sort: "set (Array_sort cmp xs) = set xs"
  using mset_Array_sort [of cmp xs] by (metis set_mset_mset)

lemma length_Array_sort: "length (Array_sort cmp xs) = length xs"
  using mset_Array_sort [of cmp xs] by (metis size_mset)

text \<open>
  For a comparator that orders any two elements and is transitive, the result is in the
  order of the comparator.
\<close>

lemma sorted_insertBy:
  assumes total: "\<And>a b. cmp a b \<le> 0 \<or> cmp b a \<le> 0"
    and trans: "\<And>a b c. cmp a b \<le> 0 \<Longrightarrow> cmp b c \<le> 0 \<Longrightarrow> cmp a c \<le> 0"
    and "sorted_wrt (\<lambda>a b. cmp a b \<le> 0) xs"
  shows "sorted_wrt (\<lambda>a b. cmp a b \<le> 0) (insertBy cmp x xs)"
  using assms(3)
proof (induction xs)
  case Nil
  show ?case by simp
next
  case (Cons y ys)
  show ?case
  proof (cases "cmp x y \<le> 0")
    case True
    with Cons.prems trans show ?thesis by auto
  next
    case False
    with total have "cmp y x \<le> 0" by blast
    with False Cons show ?thesis by (auto simp: set_insertBy)
  qed
qed

lemma sorted_Array_sort:
  assumes "\<And>a b. cmp a b \<le> 0 \<or> cmp b a \<le> 0"
    and "\<And>a b c. cmp a b \<le> 0 \<Longrightarrow> cmp b c \<le> 0 \<Longrightarrow> cmp a c \<le> 0"
  shows "sorted_wrt (\<lambda>a b. cmp a b \<le> 0) (Array_sort cmp xs)"
proof (induction xs)
  case Nil
  show ?case by (simp add: Array_sort_def)
next
  case (Cons x xs)
  have "Array_sort cmp (x # xs) = insertBy cmp x (Array_sort cmp xs)"
    by (simp add: Array_sort_def)
  with Cons sorted_insertBy [of cmp "Array_sort cmp xs" x, OF assms] show ?case
    by simp
qed

section \<open>The order of the entries and of the boards\<close>

lemma cmpEntries_ranks: "cmpEntries a b \<le> 0 \<longleftrightarrow> ranksBefore a b"
  by (auto simp: cmpEntries_def ranksBefore_def)

lemma sorted_entries: "sorted_wrt ranksBefore (Array_sort cmpEntries es)"
proof -
  have "sorted_wrt (\<lambda>a b. cmpEntries a b \<le> 0) (Array_sort cmpEntries es)"
  proof (rule sorted_Array_sort)
    fix a b c :: GameRecord
    show "cmpEntries a b \<le> 0 \<or> cmpEntries b a \<le> 0"
      by (auto simp: cmpEntries_ranks ranksBefore_def)
    assume "cmpEntries a b \<le> 0" and "cmpEntries b c \<le> 0"
    then show "cmpEntries a c \<le> 0"
      by (auto simp: cmpEntries_ranks ranksBefore_def)
  qed
  then show ?thesis by (simp add: cmpEntries_ranks)
qed

lemma sorted_rankEntries: "sorted_wrt ranksBefore (rankEntries es)"
proof -
  have "sorted_wrt ranksBefore (take 10 (Array_sort cmpEntries es))"
    using sorted_entries [of es] sorted_wrt_take by blast
  then show ?thesis by (simp add: rankEntries_def)
qed

lemma sorted_boards:
  "sorted_wrt (\<lambda>a b. topDate b \<le> topDate a) (Array_sort cmpBoards bs)"
proof -
  have "sorted_wrt (\<lambda>a b. cmpBoards a b \<le> 0) (Array_sort cmpBoards bs)"
    by (rule sorted_Array_sort) (auto simp: cmpBoards_def)
  then show ?thesis by (simp add: cmpBoards_def)
qed

section \<open>Grouping by key\<close>

lemma grouped_empty: "grouped [] []"
  by (simp add: grouped_def)

lemma addGame_keys:
  "map fst (addGame m g)
     = (if configKey (g_config g) \<in> set (map fst m) then map fst m
        else map fst m @ [configKey (g_config g)])"
  by (auto simp: addGame_def Let_def map_of_eq_None_iff case_prod_unfold comp_def
      intro!: map_cong)

lemma addGame_entries:
  assumes "(k, c, es) \<in> set (addGame m g)"
  shows "(\<exists>es0. (k, c, es0) \<in> set m \<and>
               es = es0 @ (if configKey (g_config g) = k then [g] else [])) \<or>
         (configKey (g_config g) \<notin> set (map fst m) \<and> k = configKey (g_config g) \<and> es = [g])"
  using assms
  by (auto simp: addGame_def Let_def map_of_eq_None_iff case_prod_unfold image_iff
      split: if_splits)

lemma grouped_addGame:
  assumes "grouped m games"
  shows "grouped (addGame m g) (games @ [g])"
proof -
  let ?key = "\<lambda>g. configKey (g_config g)"
  from assms have d: "distinct (map fst m)"
    and s: "set (map fst m) = ?key ` set games"
    and e: "\<And>k c es. (k, c, es) \<in> set m \<Longrightarrow> es = filter (\<lambda>g. ?key g = k) games"
    by (auto simp: grouped_def)
  have d': "distinct (map fst (addGame m g))"
    using d by (simp add: addGame_keys)
  have s': "set (map fst (addGame m g)) = ?key ` set (games @ [g])"
    using s by (auto simp: addGame_keys)
  have e': "es = filter (\<lambda>x. ?key x = k) (games @ [g])"
    if "(k, c, es) \<in> set (addGame m g)" for k c es
    using addGame_entries [OF that]
  proof
    assume "\<exists>es0. (k, c, es0) \<in> set m \<and> es = es0 @ (if ?key g = k then [g] else [])"
    then obtain es0 where "(k, c, es0) \<in> set m"
      and "es = es0 @ (if ?key g = k then [g] else [])" by blast
    with e [of k c es0] show ?thesis by simp
  next
    assume n: "?key g \<notin> set (map fst m) \<and> k = ?key g \<and> es = [g]"
    then have "k \<notin> ?key ` set games" using s by simp
    then have "filter (\<lambda>x. ?key x = k) games = []"
      by (simp add: filter_empty_conv image_iff) metis
    with n show ?thesis by simp
  qed
  show ?thesis
    unfolding grouped_def using d' s' e' by blast
qed

lemma grouped_groupGames: "grouped (groupGames games) games"
proof (induction games rule: rev_induct)
  case Nil
  show ?case by (simp add: groupGames_def grouped_empty)
next
  case (snoc g games)
  have "groupGames (games @ [g]) = addGame (groupGames games) g"
    by (simp add: groupGames_def)
  with snoc show ?case by (simp add: grouped_addGame)
qed

section \<open>The leaderboards\<close>

lemma board_of_group:
  assumes "b \<in> set (getLeaderboards games)"
  shows "b_key b \<in> (\<lambda>g. configKey (g_config g)) ` set games"
    and "b_entries b
           = rankEntries (filter (\<lambda>g. configKey (g_config g) = b_key b) games)"
proof -
  from assms obtain k c es where m: "(k, c, es) \<in> set (groupGames games)"
    and b: "b = \<lparr>b_key = k, b_config = c, b_entries = rankEntries es\<rparr>"
    by (auto simp: getLeaderboards_def set_Array_sort)
  from grouped_groupGames [of games]
  have s: "set (map fst (groupGames games)) = (\<lambda>g. configKey (g_config g)) ` set games"
    and e: "es = filter (\<lambda>g. configKey (g_config g) = k) games"
    using m by (auto simp: grouped_def)
  from m have "k \<in> set (map fst (groupGames games))" by force
  with s b show "b_key b \<in> (\<lambda>g. configKey (g_config g)) ` set games" by simp
  from b e show "b_entries b
      = rankEntries (filter (\<lambda>g. configKey (g_config g) = b_key b) games)" by simp
qed

lemma rankEntries_nonempty: "es \<noteq> [] \<Longrightarrow> rankEntries es \<noteq> []"
  using length_Array_sort [of cmpEntries es] by (auto simp: rankEntries_def)

lemma board_keys:
  "mset (map b_key (getLeaderboards games)) = mset (map fst (groupGames games))"
proof -
  have "mset (map b_key (getLeaderboards games))
          = image_mset b_key (mset (getLeaderboards games))" by simp
  also have "\<dots> = image_mset b_key
      (mset (map (\<lambda>(k, c, es). \<lparr>b_key = k, b_config = c, b_entries = rankEntries es\<rparr>)
                 (groupGames games)))"
    by (simp only: getLeaderboards_def mset_Array_sort)
  also have "\<dots> = mset (map fst (groupGames games))"
    by (simp add: case_prod_unfold comp_def multiset.map_comp)
  finally show ?thesis .
qed

lemma three_records:
  assumes "t1 < t2" and "t2 < t3"
  shows "map b_entries (getLeaderboards [scored 10 t1, scored 20 t2, scored 20 t3])
           = [[scored 20 t3, scored 20 t2, scored 10 t1]]"
  using assms
  by (simp add: getLeaderboards_def groupGames_def addGame_def Let_def rankEntries_def
      Array_sort_def cmpEntries_def scored_def)

text \<open>
  Claim C2. For every list of records, each board of \<open>getLeaderboards\<close> holds the
  records of its key, sorted by score descending and, for equal scores, by date
  descending (the sort is a sorted permutation of its input), cut to the first 10; the
  boards, one for each key that occurs, are sorted by the date of their first entry,
  descending. Three records of one key with the scores 10, 20 and 20 at the dates
  \<open>t1 < t2 < t3\<close> are ranked 20 at \<open>t3\<close>, 20 at \<open>t2\<close>, 10 at \<open>t1\<close>.
\<close>

theorem leaderboards_ranked:
  "(\<forall>b \<in> set (getLeaderboards games).
      b_entries b
        = take 10 (Array_sort cmpEntries
                     (filter (\<lambda>g. configKey (g_config g) = b_key b) games)) \<and>
      sorted_wrt ranksBefore (b_entries b) \<and>
      b_entries b \<noteq> [] \<and> length (b_entries b) \<le> 10 \<and>
      topDate b = g_date (hd (b_entries b))) \<and>
   sorted_wrt ranksBefore (Array_sort cmpEntries es) \<and>
   mset (Array_sort cmpEntries es) = mset es \<and>
   sorted_wrt (\<lambda>a b. topDate b \<le> topDate a) (getLeaderboards games) \<and>
   distinct (map b_key (getLeaderboards games)) \<and>
   set (map b_key (getLeaderboards games)) = (\<lambda>g. configKey (g_config g)) ` set games \<and>
   (t1 < t2 \<and> t2 < t3 \<longrightarrow>
      map b_entries (getLeaderboards [scored 10 t1, scored 20 t2, scored 20 t3])
        = [[scored 20 t3, scored 20 t2, scored 10 t1]])"
proof -
  let ?key = "\<lambda>g. configKey (g_config g)"
  have boards: "b_entries b = take 10 (Array_sort cmpEntries (filter (\<lambda>g. ?key g = b_key b) games)) \<and>
      sorted_wrt ranksBefore (b_entries b) \<and>
      b_entries b \<noteq> [] \<and> length (b_entries b) \<le> 10 \<and>
      topDate b = g_date (hd (b_entries b))"
    if "b \<in> set (getLeaderboards games)" for b
  proof -
    from board_of_group [OF that]
    have k: "b_key b \<in> ?key ` set games"
      and e: "b_entries b = rankEntries (filter (\<lambda>g. ?key g = b_key b) games)"
      by simp_all
    from k have "filter (\<lambda>g. ?key g = b_key b) games \<noteq> []"
      by (auto simp: filter_empty_conv)
    then have n: "b_entries b \<noteq> []"
      by (simp add: e rankEntries_nonempty)
    then have t: "topDate b = g_date (hd (b_entries b))"
      by (cases "b_entries b") (simp_all add: topDate_def)
    have s: "sorted_wrt ranksBefore (b_entries b)"
      by (simp add: e sorted_rankEntries)
    have l: "length (b_entries b) \<le> 10"
      by (simp add: e rankEntries_def)
    from e n t s l show ?thesis by (simp add: rankEntries_def)
  qed
  have order: "sorted_wrt (\<lambda>a b. topDate b \<le> topDate a) (getLeaderboards games)"
    by (simp add: getLeaderboards_def sorted_boards)
  from grouped_groupGames [of games]
  have "distinct (map fst (groupGames games))"
    and "set (map fst (groupGames games)) = ?key ` set games"
    by (simp_all add: grouped_def)
  moreover have "distinct (map b_key (getLeaderboards games))
                   = distinct (map fst (groupGames games))"
    by (rule mset_eq_imp_distinct_iff [OF board_keys])
  moreover have "set (map b_key (getLeaderboards games)) = set (map fst (groupGames games))"
    by (rule mset_eq_setD [OF board_keys])
  ultimately have keys: "distinct (map b_key (getLeaderboards games))"
    "set (map b_key (getLeaderboards games)) = ?key ` set games"
    by simp_all
  show ?thesis
    using boards order keys sorted_entries [of es] mset_Array_sort [of cmpEntries es]
      three_records [of t1 t2 t3]
    by blast
qed

theorem leaderboards_ranked_witness:
  "hd (getLeaderboards demoGames) \<in> set (getLeaderboards demoGames) \<and>
   map b_key (getLeaderboards demoGames) = [''-'', ''+-'' @ lit_mul, lit_div] \<and>
   map (map g_score \<circ> b_entries) (getLeaderboards demoGames) = [[5], [20, 20, 10], [7]] \<and>
   map (map g_date \<circ> b_entries) (getLeaderboards demoGames) = [[9], [3, 2, 1], [2]] \<and>
   sorted_wrt ranksBefore (b_entries (hd (getLeaderboards demoGames))) \<and>
   map b_entries (getLeaderboards [scored 10 1, scored 20 2, scored 20 3])
     = [[scored 20 3, scored 20 2, scored 10 1]]"
proof -
  have k: "map b_key (getLeaderboards demoGames) = [''-'', ''+-'' @ lit_mul, lit_div]"
    by code_simp
  have s: "map (map g_score \<circ> b_entries) (getLeaderboards demoGames) = [[5], [20, 20, 10], [7]]"
    by code_simp
  have d: "map (map g_date \<circ> b_entries) (getLeaderboards demoGames) = [[9], [3, 2, 1], [2]]"
    by code_simp
  from k have "getLeaderboards demoGames \<noteq> []" by auto
  then have h: "hd (getLeaderboards demoGames) \<in> set (getLeaderboards demoGames)"
    by simp
  from leaderboards_ranked [of demoGames "[]" 1 2 3] h
  have "sorted_wrt ranksBefore (b_entries (hd (getLeaderboards demoGames)))"
    and "map b_entries (getLeaderboards [scored 10 1, scored 20 2, scored 20 3])
           = [[scored 20 3, scored 20 2, scored 10 1]]"
    by (blast, simp)
  with h k s d show ?thesis by simp
qed

end
